theory Spec2Isabelle
  imports Complex_Main "HOL-Library.AList"
begin

section \<open>Python values as the client sees them\<close>

text \<open>
  The client (\<^verbatim>\<open>src/api_client.py\<close>) works on what \<^verbatim>\<open>response.json()\<close> returns:
  \<^verbatim>\<open>None\<close>, booleans, integers, finite floats (their exact rational value), strings,
  lists and dicts. A dict is an association list in insertion order; a lookup takes the
  first binding of a key. Strings are byte lists (UTF-8), which is all the client's
  comparisons with its ASCII keys depend on.
\<close>

datatype json =
    JNull
  | JBool bool
  | JInt int
  | JFloat rat
  | JStr string
  | JList "json list"
  | JObj "(string \<times> json) list"

text \<open>The exceptions the client's code can raise and its \<^verbatim>\<open>except Exception\<close> clauses catch.\<close>

datatype exn =
    AttributeError
  | TypeError
  | KeyError
  | IndexError
  | JSONDecodeError
  | RequestException

text \<open>
  What the model takes from the Python runtime as parameters, since none of it is code of
  this repository: \<^verbatim>\<open>str()\<close> of a float, a list or a dict, \<^verbatim>\<open>str(e)\<close> of a caught
  exception, and \<^verbatim>\<open>datetime.now().isoformat()\<close> as a function of the clock reading.
\<close>

record runtime =
  repr_of :: "json \<Rightarrow> string"
  exc_str :: "exn \<Rightarrow> string"
  isoformat :: "real \<Rightarrow> string"

definition ebind :: "exn + 'a \<Rightarrow> ('a \<Rightarrow> exn + 'b) \<Rightarrow> exn + 'b" where
  "ebind m f = (case m of Inl e \<Rightarrow> Inl e | Inr x \<Rightarrow> f x)"

fun show_nat :: "nat \<Rightarrow> string" where
  "show_nat n =
     (if n < 10 then [''0123456789'' ! n]
      else show_nat (n div 10) @ [''0123456789'' ! (n mod 10)])"

declare show_nat.simps [simp del]

definition show_int :: "int \<Rightarrow> string" where
  "show_int i = (if i < 0 then CHR ''-'' # show_nat (nat (- i)) else show_nat (nat i))"

text \<open>\<^verbatim>\<open>str(x)\<close> and \<^verbatim>\<open>f"{x}"\<close>.\<close>

fun py_str :: "runtime \<Rightarrow> json \<Rightarrow> string" where
  "py_str rt JNull = ''None''"
| "py_str rt (JBool b) = (if b then ''True'' else ''False'')"
| "py_str rt (JInt i) = show_int i"
| "py_str rt (JStr s) = s"
| "py_str rt v = repr_of rt v"

text \<open>Truthiness: \<^verbatim>\<open>if x\<close>, \<^verbatim>\<open>x and y\<close>, \<^verbatim>\<open>x or y\<close>, \<^verbatim>\<open>not x\<close>.\<close>

fun py_truthy :: "json \<Rightarrow> bool" where
  "py_truthy JNull = False"
| "py_truthy (JBool b) = b"
| "py_truthy (JInt i) = (i \<noteq> 0)"
| "py_truthy (JFloat q) = (q \<noteq> 0)"
| "py_truthy (JStr s) = (s \<noteq> [])"
| "py_truthy (JList xs) = (xs \<noteq> [])"
| "py_truthy (JObj kvs) = (kvs \<noteq> [])"

definition py_or :: "json \<Rightarrow> json \<Rightarrow> json" where
  "py_or a b = (if py_truthy a then a else b)"

text \<open>\<^verbatim>\<open>x == k\<close> for an integer literal \<^verbatim>\<open>k\<close>: Python compares numbers by value
  (\<^verbatim>\<open>True == 1\<close>, \<^verbatim>\<open>1.0 == 1\<close>); any other value is unequal.\<close>

fun py_eq_int :: "json \<Rightarrow> int \<Rightarrow> bool" where
  "py_eq_int (JInt n) k = (n = k)"
| "py_eq_int (JBool b) k = ((if b then 1 else 0) = k)"
| "py_eq_int (JFloat q) k = (q = of_int k)"
| "py_eq_int v k = False"

text \<open>\<^verbatim>\<open>x > 0\<close>: numbers compare, anything else raises TypeError.\<close>

fun py_gt0 :: "json \<Rightarrow> exn + bool" where
  "py_gt0 (JInt n) = Inr (n > 0)"
| "py_gt0 (JBool b) = Inr b"
| "py_gt0 (JFloat q) = Inr (q > 0)"
| "py_gt0 v = Inl TypeError"

text \<open>\<^verbatim>\<open>d.get(k, default)\<close> on the fields of a dict.\<close>

definition dget :: "(string \<times> json) list \<Rightarrow> string \<Rightarrow> json \<Rightarrow> json" where
  "dget kvs k d = (case map_of kvs k of Some v \<Rightarrow> v | None \<Rightarrow> d)"

text \<open>\<^verbatim>\<open>x.get(k, default)\<close>: only a dict has the method.\<close>

fun py_get :: "json \<Rightarrow> string \<Rightarrow> json \<Rightarrow> exn + json" where
  "py_get (JObj kvs) k d = Inr (dget kvs k d)"
| "py_get v k d = Inl AttributeError"

text \<open>\<^verbatim>\<open>x.get(k1, {}).get(k2)\<close>.\<close>

definition py_get2 :: "json \<Rightarrow> string \<Rightarrow> string \<Rightarrow> exn + json" where
  "py_get2 x k1 k2 = ebind (py_get x k1 (JObj [])) (\<lambda>y. py_get y k2 JNull)"

text \<open>\<^verbatim>\<open>for x in v\<close>: a list yields its elements, a string its characters, a dict its
  keys; anything else is not iterable.\<close>

fun py_iter :: "json \<Rightarrow> exn + json list" where
  "py_iter (JList xs) = Inr xs"
| "py_iter (JStr s) = Inr (map (\<lambda>c. JStr [c]) s)"
| "py_iter (JObj kvs) = Inr (map JStr (remdups (map fst kvs)))"
| "py_iter v = Inl TypeError"

text \<open>\<^verbatim>\<open>len(v)\<close>.\<close>

fun py_len :: "json \<Rightarrow> exn + nat" where
  "py_len (JList xs) = Inr (length xs)"
| "py_len (JStr s) = Inr (length s)"
| "py_len (JObj kvs) = Inr (length (remdups (map fst kvs)))"
| "py_len v = Inl TypeError"

text \<open>\<^verbatim>\<open>v[0]\<close>: a JSON dict has string keys only, so the key \<^verbatim>\<open>0\<close> is missing.\<close>

fun py_index0 :: "json \<Rightarrow> exn + json" where
  "py_index0 (JList []) = Inl IndexError"
| "py_index0 (JList (x # xs)) = Inr x"
| "py_index0 (JStr []) = Inl IndexError"
| "py_index0 (JStr (c # s)) = Inr (JStr [c])"
| "py_index0 (JObj kvs) = Inl KeyError"
| "py_index0 v = Inl TypeError"

text \<open>\<^verbatim>\<open>x in d\<close> for a dict literal \<^verbatim>\<open>d\<close> with string keys: a list or a dict is
  unhashable, any other non-string is hashable and equal to no key.\<close>

fun py_key_in :: "json \<Rightarrow> (string \<times> 'a) list \<Rightarrow> exn + bool" where
  "py_key_in (JStr k) d = Inr (map_of d k \<noteq> None)"
| "py_key_in (JList xs) d = Inl TypeError"
| "py_key_in (JObj kvs) d = Inl TypeError"
| "py_key_in v d = Inr False"

text \<open>Building a dict literal whose values may raise: the values are evaluated in order
  and the first exception wins.\<close>

fun mk_obj :: "(string \<times> (exn + json)) list \<Rightarrow> exn + (string \<times> json) list" where
  "mk_obj [] = Inr []"
| "mk_obj ((k, m) # rest) =
     (case m of
        Inl e \<Rightarrow> Inl e
      | Inr v \<Rightarrow> (case mk_obj rest of Inl e \<Rightarrow> Inl e | Inr kvs \<Rightarrow> Inr ((k, v) # kvs)))"

definition py_dict :: "(string \<times> (exn + json)) list \<Rightarrow> exn + json" where
  "py_dict entries = map_sum id JObj (mk_obj entries)"

text \<open>A loop that builds a list by \<^verbatim>\<open>append\<close>, one element per iteration.\<close>

fun map_exn :: "('a \<Rightarrow> exn + 'b) \<Rightarrow> 'a list \<Rightarrow> exn + 'b list" where
  "map_exn f [] = Inr []"
| "map_exn f (x # xs) =
     (case f x of
        Inl e \<Rightarrow> Inl e
      | Inr y \<Rightarrow> (case map_exn f xs of Inl e \<Rightarrow> Inl e | Inr ys \<Rightarrow> Inr (y # ys)))"

section \<open>Main odds (\<^verbatim>\<open>_extract_main_odds\<close>)\<close>

text \<open>The \<^verbatim>\<open>if/elif\<close> chain on the selection number; \<^verbatim>\<open>main_odds[k] = v\<close> replaces the
  value of a key in place or appends the key.\<close>

definition set_main_odd :: "json \<Rightarrow> json \<Rightarrow> (string \<times> json) list \<Rightarrow> (string \<times> json) list" where
  "set_main_odd selection_no odd_value main_odds =
     (if py_eq_int selection_no 1 then AList.update ''home_win'' odd_value main_odds
      else if py_eq_int selection_no 0 then AList.update ''draw'' odd_value main_odds
      else if py_eq_int selection_no 2 then AList.update ''away_win'' odd_value main_odds
      else main_odds)"

fun odds_loop :: "json list \<Rightarrow> (string \<times> json) list \<Rightarrow> exn + (string \<times> json) list" where
  "odds_loop [] main_odds = Inr main_odds"
| "odds_loop (odd_entry # odds) main_odds =
     (case py_get odd_entry ''no'' JNull of
        Inl e \<Rightarrow> Inl e
      | Inr selection_no \<Rightarrow>
          (case py_get odd_entry ''odd'' JNull of
             Inl e \<Rightarrow> Inl e
           | Inr odd_value \<Rightarrow> odds_loop odds (set_main_odd selection_no odd_value main_odds)))"

fun markets_loop :: "json list \<Rightarrow> (string \<times> json) list \<Rightarrow> exn + (string \<times> json) list" where
  "markets_loop [] main_odds = Inr main_odds"
| "markets_loop (market # markets) main_odds =
     (case py_get market ''t'' JNull of
        Inl e \<Rightarrow> Inl e
      | Inr t \<Rightarrow>
          if py_eq_int t 1
          then ebind (py_get market ''o'' (JList [])) (\<lambda>odds.
               ebind (py_iter odds) (\<lambda>os. odds_loop os main_odds))
          else markets_loop markets main_odds)"

definition extract_main_odds :: "json \<Rightarrow> exn + (string \<times> json) list" where
  "extract_main_odds markets = ebind (py_iter markets) (\<lambda>ms. markets_loop ms [])"

section \<open>Market categories (\<^verbatim>\<open>_categorize_market\<close>)\<close>

definition categorize_market :: "runtime \<Rightarrow> json \<Rightarrow> json \<Rightarrow> string" where
  "categorize_market rt market_type market_sub_type =
     (let mt = py_str rt market_type in
      if mt \<in> set [''1'', ''5'', ''10''] then ''main_markets''
      else if mt \<in> set [''2'', ''3'', ''8''] then ''goals_markets''
      else if mt \<in> set [''4'', ''6''] then ''handicap_markets''
      else if mt \<in> set [''7'', ''9'', ''14'', ''15''] then ''player_markets''
      else if mt \<in> set [''11'', ''12'', ''13''] then ''events_markets''
      else ''other_markets'')"

section \<open>Market descriptions (\<^verbatim>\<open>_get_market_description\<close>)\<close>

text \<open>\<^verbatim>\<open>f"... {special_odd_value or d}"\<close>.\<close>

definition sov_or :: "runtime \<Rightarrow> json \<Rightarrow> string \<Rightarrow> string" where
  "sov_or rt special_odd_value d = py_str rt (py_or special_odd_value (JStr d))"

definition market_descriptions :: "runtime \<Rightarrow> json \<Rightarrow> (string \<times> string) list" where
  "market_descriptions rt sov =
   [(''1.1'', ''1X2 - Match Result''),
    (''1.2'', ''1X2 - First Half''),
    (''1.3'', ''1X2 - Second Half''),
    (''2.92'', ''Double Chance''),
    (''2.719'', ''Odd/Even Total Goals''),
    (''2.720'', ''Both Teams to Score''),
    (''2.604'', ''Total Goals Over/Under '' @ sov_or rt sov ''2.5''),
    (''2.605'', ''Total Goals Over/Under 1.5''),
    (''2.606'', ''Total Goals Over/Under 3.5''),
    (''2.607'', ''Total Goals Over/Under 0.5''),
    (''2.608'', ''Total Goals Over/Under 4.5''),
    (''2.85'', ''First Half 1X2''),
    (''2.88'', ''1X2 - Match Result (Alternative)''),
    (''2.36'', ''1X2 - Second Half''),
    (''2.77'', ''Double Chance (Alternative)''),
    (''2.91'', ''Odd/Even (Alternative)''),
    (''2.89'', ''Both Teams to Score (Alternative)''),
    (''2.84'', ''First Half - 1X2''),
    (''2.4'', ''Goal Intervals (0-1/2-3/4-5/6+)''),
    (''2.821'', ''Both Teams to Score (Extended)''),
    (''2.730'', ''Team Clean Sheet''),
    (''2.729'', ''Win Either Half''),
    (''2.698'', ''1X2 & Both Teams Score''),
    (''2.699'', ''1X2 & Total Goals''),
    (''2.6'', ''First Half 1X2''),
    (''2.1'', ''Match Result & Total Over/Under '' @ sov_or rt sov ''2.5''),
    (''3.1'', ''Correct Score''),
    (''3.2'', ''Correct Score - First Half''),
    (''4.1'', ''Asian Handicap '' @ sov_or rt sov ''0''),
    (''4.2'', ''Asian Handicap - First Half '' @ sov_or rt sov ''0''),
    (''5.1'', ''Draw No Bet''),
    (''5.2'', ''Draw No Bet - First Half''),
    (''6.1'', ''European Handicap '' @ sov_or rt sov ''0''),
    (''6.2'', ''European Handicap - First Half '' @ sov_or rt sov ''0''),
    (''7.1'', ''Win to Nil''),
    (''8.1'', ''Home Team Total Goals Over/Under '' @ sov_or rt sov ''1.5''),
    (''8.2'', ''Away Team Total Goals Over/Under '' @ sov_or rt sov ''1.5''),
    (''9.1'', ''First Goal Scorer''),
    (''9.2'', ''Last Goal Scorer''),
    (''9.3'', ''Anytime Goal Scorer''),
    (''10.1'', ''Half Time / Full Time''),
    (''11.1'', ''Corners Over/Under '' @ sov_or rt sov ''9.5''),
    (''11.2'', ''Corners Handicap '' @ sov_or rt sov ''0''),
    (''12.1'', ''Cards Over/Under '' @ sov_or rt sov ''3.5''),
    (''12.2'', ''Cards Handicap '' @ sov_or rt sov ''0'')]"

definition subtype_patterns :: "(string \<times> string) list" where
  "subtype_patterns =
   [(''85'', ''First Half 1X2''),
    (''88'', ''1X2 Alternative''),
    (''36'', ''Second Half 1X2''),
    (''77'', ''Double Chance''),
    (''91'', ''Odd/Even''),
    (''89'', ''Both Teams to Score''),
    (''84'', ''First Half Result''),
    (''4'', ''Goal Intervals''),
    (''821'', ''Both Teams to Score Extended''),
    (''730'', ''Team Clean Sheet''),
    (''729'', ''Win Either Half''),
    (''698'', ''1X2 & Both Teams Score Combo''),
    (''699'', ''1X2 & Total Goals Combo''),
    (''6'', ''First Half 1X2'')]"

definition main_type_descriptions :: "(string \<times> string) list" where
  "main_type_descriptions =
   [(''1'', ''Match Result Markets''),
    (''2'', ''Goals and Statistics''),
    (''3'', ''Correct Score''),
    (''4'', ''Asian Handicap''),
    (''5'', ''Draw No Bet''),
    (''6'', ''European Handicap''),
    (''7'', ''Win to Nil''),
    (''8'', ''Team Total Goals''),
    (''9'', ''Goal Scorers''),
    (''10'', ''Half Time / Full Time''),
    (''11'', ''Corners''),
    (''12'', ''Cards''),
    (''13'', ''Specials''),
    (''14'', ''Player Props''),
    (''15'', ''Team Props'')]"

text \<open>The last tier: the description keyed by the type code alone, with the special value
  or the raw sub-type code appended.\<close>

definition main_type_fallback :: "runtime \<Rightarrow> json \<Rightarrow> json \<Rightarrow> json \<Rightarrow> string" where
  "main_type_fallback rt market_type market_sub_type special_odd_value =
     (let main_desc =
            (case map_of main_type_descriptions (py_str rt market_type) of
               Some d \<Rightarrow> d
             | None \<Rightarrow> ''Market Type '' @ py_str rt market_type)
      in if py_truthy special_odd_value
         then main_desc @ '' ('' @ py_str rt special_odd_value @ '')''
         else main_desc @ ''.'' @ py_str rt market_sub_type)"

text \<open>The tier for type \<^verbatim>\<open>"2"\<close> with a special value. Both \<^verbatim>\<open>any(... for sel in [''])\<close>
  tests range over the one-element list holding the empty string; \<^verbatim>\<open>'\<Uuml>st'\<close> is written
  as its UTF-8 bytes.\<close>

definition type2_special :: "runtime \<Rightarrow> json \<Rightarrow> string" where
  "type2_special rt special_odd_value =
     (if list_ex (\<lambda>sel. sel \<in> set [''Alt'', [CHR 0xC3, CHR 0x9C] @ ''st'', ''Over'', ''Under'']) ['''']
      then ''Over/Under '' @ py_str rt special_odd_value
      else if list_ex (\<lambda>sel. sel \<in> set [''1'', ''0'', ''2'']) ['''']
      then ''1X2 with Special Value ('' @ py_str rt special_odd_value @ '')''
      else ''Goals & Statistics ('' @ py_str rt special_odd_value @ '')'')"

definition market_key :: "runtime \<Rightarrow> json \<Rightarrow> json \<Rightarrow> string" where
  "market_key rt market_type market_sub_type =
     py_str rt market_type @ ''.'' @ py_str rt market_sub_type"

definition get_market_description :: "runtime \<Rightarrow> json \<Rightarrow> json \<Rightarrow> json \<Rightarrow> exn + string" where
  "get_market_description rt market_type market_sub_type special_odd_value =
     (case map_of (market_descriptions rt special_odd_value)
             (market_key rt market_type market_sub_type) of
        Some d \<Rightarrow> Inr d
      | None \<Rightarrow>
          if market_type = JStr ''2''
          then (if py_truthy special_odd_value
                then Inr (type2_special rt special_odd_value)
                else (case py_key_in market_sub_type subtype_patterns of
                        Inl e \<Rightarrow> Inl e
                      | Inr True \<Rightarrow>
                          (case map_of subtype_patterns (py_str rt market_sub_type) of
                             Some d \<Rightarrow> Inr d
                           | None \<Rightarrow> Inl KeyError)
                      | Inr False \<Rightarrow>
                          Inr (main_type_fallback rt market_type market_sub_type
                                 special_odd_value)))
          else Inr (main_type_fallback rt market_type market_sub_type special_odd_value))"

section \<open>The matches pipeline (\<^verbatim>\<open>_process_matches_data\<close>)\<close>

fun starts_with :: "string \<Rightarrow> string \<Rightarrow> bool" where
  "starts_with s [] = True"
| "starts_with [] (p # ps) = False"
| "starts_with (c # s) (p # ps) = (c = p \<and> starts_with s ps)"

fun contains_str :: "string \<Rightarrow> string \<Rightarrow> bool" where
  "contains_str [] p = (p = [])"
| "contains_str (c # s) p = (starts_with (c # s) p \<or> contains_str s p)"

text \<open>\<^verbatim>\<open>'k' in x\<close>: a key of a dict, an element of a list, a substring of a string.\<close>

fun py_has_key :: "json \<Rightarrow> string \<Rightarrow> exn + bool" where
  "py_has_key (JObj kvs) k = Inr (map_of kvs k \<noteq> None)"
| "py_has_key (JList xs) k = Inr (JStr k \<in> set xs)"
| "py_has_key (JStr s) k = Inr (contains_str s k)"
| "py_has_key v k = Inl TypeError"

text \<open>\<^verbatim>\<open>x['k']\<close>.\<close>

fun py_item :: "json \<Rightarrow> string \<Rightarrow> exn + json" where
  "py_item (JObj kvs) k = (case map_of kvs k of Some v \<Rightarrow> Inr v | None \<Rightarrow> Inl KeyError)"
| "py_item v k = Inl TypeError"

definition match_data :: "runtime \<Rightarrow> json \<Rightarrow> exn + json" where
  "match_data rt event =
     py_dict
       [(''event_id'', py_get event ''i'' JNull),
        (''teams'',
           ebind (py_get event ''hn'' (JStr [])) (\<lambda>hn.
           ebind (py_get event ''an'' (JStr [])) (\<lambda>an.
           Inr (JStr (py_str rt hn @ '' vs '' @ py_str rt an))))),
        (''home_team'', py_get event ''hn'' (JStr [])),
        (''away_team'', py_get event ''an'' (JStr [])),
        (''time'', py_get event ''d'' (JStr [])),
        (''is_live'', py_get event ''il'' (JBool False)),
        (''status'', py_get event ''s'' (JStr [])),
        (''sport_id'', py_get event ''sid'' (JStr [])),
        (''main_odds'',
           ebind (py_get event ''m'' (JList [])) (\<lambda>m.
           map_sum id JObj (extract_main_odds m)))]"

text \<open>\<^verbatim>\<open>limit and len(matches) >= limit\<close>: \<^verbatim>\<open>None\<close> and \<^verbatim>\<open>0\<close> are falsy.\<close>

definition limit_reached :: "int option \<Rightarrow> nat \<Rightarrow> bool" where
  "limit_reached limit n = (case limit of None \<Rightarrow> False | Some l \<Rightarrow> l \<noteq> 0 \<and> l \<le> int n)"

text \<open>\<^verbatim>\<open>live_only and not event.get('il', False)\<close>: the lookup runs only when
  \<^verbatim>\<open>live_only\<close> is set.\<close>

definition skip_event :: "bool \<Rightarrow> json \<Rightarrow> exn + bool" where
  "skip_event live_only event =
     (if live_only then map_sum id (\<lambda>v. \<not> py_truthy v) (py_get event ''il'' (JBool False))
      else Inr False)"

fun matches_loop ::
  "runtime \<Rightarrow> int option \<Rightarrow> bool \<Rightarrow> json list \<Rightarrow> json list \<Rightarrow> exn + json list" where
  "matches_loop rt limit live_only [] matches = Inr matches"
| "matches_loop rt limit live_only (event # events) matches =
     (case skip_event live_only event of
        Inl e \<Rightarrow> Inl e
      | Inr skip \<Rightarrow>
          if skip then matches_loop rt limit live_only events matches
          else (case match_data rt event of
                  Inl e \<Rightarrow> Inl e
                | Inr m \<Rightarrow>
                    if limit_reached limit (length (matches @ [m])) then Inr (matches @ [m])
                    else matches_loop rt limit live_only events (matches @ [m])))"

definition matches_body :: "runtime \<Rightarrow> string \<Rightarrow> json \<Rightarrow> int option \<Rightarrow> bool \<Rightarrow> exn + json" where
  "matches_body rt now api_data limit live_only =
     ebind (py_get api_data ''isSuccess'' JNull) (\<lambda>is_success.
     ebind (if \<not> py_truthy is_success then Inr True
            else map_sum id Not (py_has_key api_data ''data'')) (\<lambda>invalid.
     if invalid
     then Inr (JObj [(''success'', JBool False),
                     (''error'', JStr ''Invalid API response format''),
                     (''timestamp'', JStr now)])
     else ebind (py_item api_data ''data'') (\<lambda>d.
          ebind (py_get d ''events'' (JList [])) (\<lambda>events.
          ebind (py_iter events) (\<lambda>evs.
          ebind (matches_loop rt limit live_only evs []) (\<lambda>matches.
          Inr (JObj [(''success'', JBool True),
                     (''total_matches'', JInt (int (length matches))),
                     (''timestamp'', JStr now),
                     (''matches'', JList matches),
                     (''cached'', JBool False)])))))))"

text \<open>\<^verbatim>\<open>now\<close> is what \<^verbatim>\<open>datetime.now().isoformat()\<close> returns during the call.\<close>

definition process_matches_data ::
  "runtime \<Rightarrow> string \<Rightarrow> json \<Rightarrow> int option \<Rightarrow> bool \<Rightarrow> json" where
  "process_matches_data rt now api_data limit live_only =
     (case matches_body rt now api_data limit live_only of
        Inr r \<Rightarrow> r
      | Inl e \<Rightarrow>
          JObj [(''success'', JBool False),
                (''error'', JStr (''Error processing matches data: '' @ exc_str rt e)),
                (''timestamp'', JStr now)])"

section \<open>The event-details pipeline (\<^verbatim>\<open>_process_detailed_event\<close>)\<close>

definition selection_info :: "json \<Rightarrow> exn + json" where
  "selection_info odd_entry =
     py_dict
       [(''selection_no'', py_get odd_entry ''no'' JNull),
        (''name'', py_get odd_entry ''n'' (JStr [])),
        (''odd'', py_get odd_entry ''odd'' JNull),
        (''winning_odd'', py_get odd_entry ''wodd'' JNull),
        (''status'', py_get odd_entry ''s'' (JStr []))]"

text \<open>One market: the dict literal (with its empty \<^verbatim>\<open>selections\<close>) is built first, then
  the selections are appended to its last entry.\<close>

definition market_info :: "runtime \<Rightarrow> json \<Rightarrow> exn + json" where
  "market_info rt market =
     ebind (py_get market ''t'' (JStr [])) (\<lambda>market_type.
     ebind (py_get market ''st'' (JStr [])) (\<lambda>market_sub_type.
     ebind (py_get market ''sov'' (JStr [])) (\<lambda>special_odd_value.
     ebind (mk_obj
              [(''market_id'', py_get market ''i'' JNull),
               (''market_type'', Inr market_type),
               (''market_sub_type'', Inr market_sub_type),
               (''market_description'',
                  map_sum id JStr
                    (get_market_description rt market_type market_sub_type special_odd_value)),
               (''market_category'',
                  Inr (JStr (categorize_market rt market_type market_sub_type))),
               (''status'', py_get market ''s'' (JStr [])),
               (''version'', py_get market ''v'' (JStr [])),
               (''special_odd_value'', Inr special_odd_value)]) (\<lambda>info.
     ebind (py_get market ''o'' (JList [])) (\<lambda>odds.
     ebind (py_iter odds) (\<lambda>os.
     ebind (map_exn selection_info os) (\<lambda>selections.
     Inr (JObj (info @ [(''selections'', JList selections)])))))))))"

definition detailed_body :: "runtime \<Rightarrow> string \<Rightarrow> json \<Rightarrow> string \<Rightarrow> exn + json" where
  "detailed_body rt now event_data event_id =
     ebind (py_dict
              [(''name'',
                  ebind (py_get event_data ''hn'' (JStr [])) (\<lambda>hn.
                  ebind (py_get event_data ''an'' (JStr [])) (\<lambda>an.
                  Inr (JStr (py_str rt hn @ '' vs '' @ py_str rt an))))),
               (''home_team'', py_get event_data ''hn'' (JStr [])),
               (''away_team'', py_get event_data ''an'' (JStr [])),
               (''start_time'', py_get event_data ''d'' (JStr [])),
               (''status'', py_get event_data ''s'' (JStr [])),
               (''is_live'', py_get event_data ''il'' (JBool False)),
               (''sport_id'', py_get event_data ''sid'' (JStr [])),
               (''event_id'', py_get event_data ''i'' (JStr [])),
               (''match_bet_count'', py_get event_data ''mbc'' (JInt 0))]) (\<lambda>event_info.
     ebind (ebind (py_get event_data ''m'' (JList [])) py_len) (\<lambda>markets_count.
     ebind (py_get event_data ''m'' (JList [])) (\<lambda>markets.
     ebind (py_iter markets) (\<lambda>ms.
     ebind (map_exn (market_info rt) ms) (\<lambda>betting_markets.
     Inr (JObj [(''success'', JBool True),
                (''event_id'', JStr event_id),
                (''timestamp'', JStr now),
                (''event_info'', event_info),
                (''markets_count'', JInt (int markets_count)),
                (''betting_markets'', JList betting_markets)]))))))"

definition process_detailed_event :: "runtime \<Rightarrow> string \<Rightarrow> json \<Rightarrow> string \<Rightarrow> json" where
  "process_detailed_event rt now event_data event_id =
     (case detailed_body rt now event_data event_id of
        Inr r \<Rightarrow> r
      | Inl e \<Rightarrow>
          JObj [(''success'', JBool False),
                (''error'', JStr (''Error processing detailed event: '' @ exc_str rt e)),
                (''event_id'', JStr event_id),
                (''raw_data'', event_data)])"

section \<open>The statistics pipeline (\<^verbatim>\<open>_process_event_statistics\<close>)\<close>

text \<open>\<^verbatim>\<open>result[k] = v\<close>, where evaluating \<^verbatim>\<open>v\<close> may raise.\<close>

definition assign ::
  "string \<Rightarrow> exn + json \<Rightarrow> (string \<times> json) list \<Rightarrow> exn + (string \<times> json) list" where
  "assign k m result = ebind m (\<lambda>v. Inr (AList.update k v result))"

text \<open>\<^verbatim>\<open>x = stats_data.get(k, {})\<close> followed by \<^verbatim>\<open>if x: result[field] = build(x)\<close>.\<close>

definition section_get ::
  "string \<Rightarrow> string \<Rightarrow> (json \<Rightarrow> exn + json) \<Rightarrow> json \<Rightarrow> (string \<times> json) list
     \<Rightarrow> exn + (string \<times> json) list" where
  "section_get k field build stats_data result =
     ebind (py_get stats_data k (JObj [])) (\<lambda>x.
     if py_truthy x then assign field (build x) result else Inr result)"

text \<open>\<^verbatim>\<open>if k in stats_data:\<close> followed by \<^verbatim>\<open>x = stats_data[k]\<close> and
  \<^verbatim>\<open>if cond(x): result[field] = build(x)\<close>.\<close>

definition section_in ::
  "string \<Rightarrow> string \<Rightarrow> (json \<Rightarrow> exn + bool) \<Rightarrow> (json \<Rightarrow> exn + json) \<Rightarrow> json
     \<Rightarrow> (string \<times> json) list \<Rightarrow> exn + (string \<times> json) list" where
  "section_in k field cond build stats_data result =
     ebind (py_has_key stats_data k) (\<lambda>present.
     if present
     then ebind (py_item stats_data k) (\<lambda>x.
          ebind (cond x) (\<lambda>c.
          if c then assign field (build x) result else Inr result))
     else Inr result)"

definition event_info_of :: "json \<Rightarrow> exn + json" where
  "event_info_of event_info =
     py_dict
       [(''event_id'', py_get event_info ''eventId'' JNull),
        (''event_date'', py_get event_info ''eventDate'' JNull),
        (''home_team'', py_dict
           [(''id'', py_get2 event_info ''homeTeam'' ''id''),
            (''name'', py_get2 event_info ''homeTeam'' ''name''),
            (''short_name'', py_get2 event_info ''homeTeam'' ''shortName''),
            (''logo'', py_get2 event_info ''homeTeam'' ''logo'')]),
        (''away_team'', py_dict
           [(''id'', py_get2 event_info ''awayTeam'' ''id''),
            (''name'', py_get2 event_info ''awayTeam'' ''name''),
            (''short_name'', py_get2 event_info ''awayTeam'' ''shortName''),
            (''logo'', py_get2 event_info ''awayTeam'' ''logo'')]),
        (''tournament'', py_dict
           [(''id'', py_get2 event_info ''tournamentInformation'' ''id''),
            (''name'', py_get2 event_info ''tournamentInformation'' ''name''),
            (''short_name'', py_get2 event_info ''tournamentInformation'' ''shortName'')]),
        (''round'', py_dict
           [(''id'', py_get2 event_info ''roundInformation'' ''id''),
            (''name'', py_get2 event_info ''roundInformation'' ''name''),
            (''short_name'', py_get2 event_info ''roundInformation'' ''shortName'')]),
        (''status'', py_dict
           [(''id'', py_get2 event_info ''statusInformation'' ''id''),
            (''name'', py_get2 event_info ''statusInformation'' ''name'')]),
        (''venue'', py_dict
           [(''stadium'', py_get2 event_info ''eventPlaceInformation'' ''stadiumName''),
            (''temperature'', py_get2 event_info ''eventPlaceInformation'' ''temperatureC''),
            (''weather'', py_get2 event_info ''eventPlaceInformation'' ''weatherStatus'')])]"

text \<open>\<^verbatim>\<open>standings_data and len(standings_data) > 0\<close>.\<close>

definition standings_cond :: "json \<Rightarrow> exn + bool" where
  "standings_cond standings_data =
     (if py_truthy standings_data then map_sum id (\<lambda>n. n > 0) (py_len standings_data)
      else Inr False)"

text \<open>\<^verbatim>\<open>standings_data[0].get(k, default)\<close>.\<close>

definition first_get :: "json \<Rightarrow> string \<Rightarrow> json \<Rightarrow> exn + json" where
  "first_get standings_data k d = ebind (py_index0 standings_data) (\<lambda>x. py_get x k d)"

definition standings_model_of :: "json \<Rightarrow> exn + json" where
  "standings_model_of standings_data =
     py_dict
       [(''tournament_name'', first_get standings_data ''tournamentName'' JNull),
        (''season'', first_get standings_data ''name'' JNull),
        (''overall_table'', first_get standings_data ''overAll'' (JList [])),
        (''home_table'', first_get standings_data ''homeTeam'' (JList [])),
        (''away_table'', first_get standings_data ''awayTeam'' (JList []))]"

definition truthy_cond :: "json \<Rightarrow> exn + bool" where
  "truthy_cond x = Inr (py_truthy x)"

definition recent_event_of :: "json \<Rightarrow> exn + json" where
  "recent_event_of h2h_data =
     py_dict
       [(''overall_matches'', py_get h2h_data ''overall'' (JList [])),
        (''home_team_matches'', py_get h2h_data ''homeTeam'' (JList [])),
        (''away_team_matches'', py_get h2h_data ''awayTeam'' (JList []))]"

definition last_event_of :: "json \<Rightarrow> exn + json" where
  "last_event_of form_data =
     py_dict
       [(''home_team'', py_dict
           [(''id'', py_get2 form_data ''homeTeam'' ''id''),
            (''name'', py_get2 form_data ''homeTeam'' ''name''),
            (''recent_matches'', py_get form_data ''homeOverAll'' (JList []))]),
        (''away_team'', py_dict
           [(''id'', py_get2 form_data ''awayTeam'' ''id''),
            (''name'', py_get2 form_data ''awayTeam'' ''name''),
            (''recent_matches'', py_get form_data ''awayOverAll'' (JList []))])]"

definition iddaa_analysis_of :: "json \<Rightarrow> exn + json" where
  "iddaa_analysis_of betting_data =
     py_dict
       [(''general_info'', py_get betting_data ''generalInformations'' (JList [])),
        (''market_analysis'', py_get betting_data ''bettingAnalysis'' (JList []))]"

text \<open>\<^verbatim>\<open>ref_data and ref_data.get('referee', {}).get('id', 0) > 0\<close>.\<close>

definition referee_cond :: "json \<Rightarrow> exn + bool" where
  "referee_cond ref_data =
     (if py_truthy ref_data
      then ebind (py_get ref_data ''referee'' (JObj [])) (\<lambda>r.
           ebind (py_get r ''id'' (JInt 0)) py_gt0)
      else Inr False)"

definition referee_page_of :: "json \<Rightarrow> exn + json" where
  "referee_page_of ref_data =
     py_dict
       [(''id'', py_get2 ref_data ''referee'' ''id''),
        (''age'', py_get2 ref_data ''referee'' ''age''),
        (''country'',
           ebind (py_get ref_data ''referee'' (JObj [])) (\<lambda>r. py_get r ''country'' (JObj []))),
        (''tournaments'', py_get ref_data ''refereeTournaments'' (JList [])),
        (''recent_matches'', py_get ref_data ''refereeMatches'' (JList []))]"

definition league_row :: "json \<Rightarrow> exn + json" where
  "league_row team =
     py_dict
       [(''position'', py_get team ''position'' JNull),
        (''team_name'', py_get team ''teamName'' JNull),
        (''played'', py_get team ''played'' JNull),
        (''won'', py_get team ''won'' JNull),
        (''drawn'', py_get team ''drawn'' JNull),
        (''lost'', py_get team ''lost'' JNull),
        (''goals_for'', py_get team ''goalsFor'' JNull),
        (''goals_against'', py_get team ''goalsAgainst'' JNull),
        (''goal_difference'', py_get team ''goalDifference'' JNull),
        (''points'', py_get team ''points'' JNull)]"

text \<open>A list field that starts empty and is filled by a loop over \<^verbatim>\<open>x.get(k, [])\<close>.\<close>

definition rows_of :: "json \<Rightarrow> string \<Rightarrow> (json \<Rightarrow> exn + json) \<Rightarrow> exn + json" where
  "rows_of x k row =
     ebind (py_get x k (JList [])) (\<lambda>v.
     ebind (py_iter v) (\<lambda>items.
     map_sum id JList (map_exn row items)))"

definition league_table_of :: "json \<Rightarrow> exn + json" where
  "league_table_of standings_data =
     py_dict
       [(''home_team_position'', py_get standings_data ''homeTeamPosition'' JNull),
        (''away_team_position'', py_get standings_data ''awayTeamPosition'' JNull),
        (''league_table'', rows_of standings_data ''leagueTable'' league_row)]"

text \<open>\<^verbatim>\<open>f"{m.get(a)}-{m.get(b)}"\<close>.\<close>

definition score_of :: "runtime \<Rightarrow> json \<Rightarrow> string \<Rightarrow> string \<Rightarrow> exn + json" where
  "score_of rt m a b =
     ebind (py_get m a JNull) (\<lambda>x.
     ebind (py_get m b JNull) (\<lambda>y.
     Inr (JStr (py_str rt x @ ''-'' @ py_str rt y))))"

definition h2h_row :: "runtime \<Rightarrow> json \<Rightarrow> exn + json" where
  "h2h_row rt m =
     py_dict
       [(''date'', py_get m ''matchDate'' JNull),
        (''home_team'', py_get m ''homeTeamName'' JNull),
        (''away_team'', py_get m ''awayTeamName'' JNull),
        (''score'', score_of rt m ''homeTeamScore'' ''awayTeamScore''),
        (''tournament'', py_get m ''tournamentName'' JNull)]"

definition head_to_head_of :: "runtime \<Rightarrow> json \<Rightarrow> exn + json" where
  "head_to_head_of rt h2h_data =
     py_dict
       [(''total_matches'', py_get h2h_data ''totalMatches'' JNull),
        (''home_team_wins'', py_get h2h_data ''homeTeamWins'' JNull),
        (''away_team_wins'', py_get h2h_data ''awayTeamWins'' JNull),
        (''draws'', py_get h2h_data ''draws'' JNull),
        (''recent_matches'', rows_of h2h_data ''headToHeadMatches'' (h2h_row rt))]"

definition form_row :: "runtime \<Rightarrow> json \<Rightarrow> exn + json" where
  "form_row rt m =
     py_dict
       [(''date'', py_get m ''matchDate'' JNull),
        (''opponent'', py_get m ''opponentName'' JNull),
        (''result'', py_get m ''result'' JNull),
        (''score'', score_of rt m ''homeScore'' ''awayScore''),
        (''home_away'', py_get m ''homeAway'' JNull),
        (''tournament'', py_get m ''tournamentName'' JNull)]"

definition recent_form_of :: "runtime \<Rightarrow> json \<Rightarrow> exn + json" where
  "recent_form_of rt recent_form =
     py_dict
       [(''home_team_form'', rows_of recent_form ''homeTeamForm'' (form_row rt)),
        (''away_team_form'', rows_of recent_form ''awayTeamForm'' (form_row rt))]"

definition betting_analysis_of :: "json \<Rightarrow> exn + json" where
  "betting_analysis_of betting_data =
     py_dict
       [(''opening_odds'', py_dict
           [(''home'', py_get2 betting_data ''openingOdds'' ''home''),
            (''draw'', py_get2 betting_data ''openingOdds'' ''draw''),
            (''away'', py_get2 betting_data ''openingOdds'' ''away'')]),
        (''current_odds'', py_dict
           [(''home'', py_get2 betting_data ''currentOdds'' ''home''),
            (''draw'', py_get2 betting_data ''currentOdds'' ''draw''),
            (''away'', py_get2 betting_data ''currentOdds'' ''away'')]),
        (''odds_movement'', py_get betting_data ''oddsMovement'' (JList []))]"

definition referee_information_of :: "json \<Rightarrow> exn + json" where
  "referee_information_of referee_data =
     py_dict
       [(''name'', py_get referee_data ''refereeName'' JNull),
        (''nationality'', py_get referee_data ''nationality'' JNull),
        (''experience'', py_dict
           [(''total_matches'', py_get referee_data ''totalMatches'' JNull),
            (''yellow_cards_per_match'', py_get referee_data ''avgYellowCards'' JNull),
            (''red_cards_per_match'', py_get referee_data ''avgRedCards'' JNull),
            (''penalties_per_match'', py_get referee_data ''avgPenalties'' JNull)])]"

definition team_stats_of :: "json \<Rightarrow> exn + json" where
  "team_stats_of team_stats =
     py_dict
       [(''home_team'', py_dict
           [(''attack_strength'', py_get2 team_stats ''homeTeam'' ''attackStrength''),
            (''defense_strength'', py_get2 team_stats ''homeTeam'' ''defenseStrength''),
            (''recent_form_points'', py_get2 team_stats ''homeTeam'' ''recentFormPoints''),
            (''avg_goals_scored'', py_get2 team_stats ''homeTeam'' ''avgGoalsScored''),
            (''avg_goals_conceded'', py_get2 team_stats ''homeTeam'' ''avgGoalsConceded''),
            (''home_advantage'', py_get2 team_stats ''homeTeam'' ''homeAdvantage'')]),
        (''away_team'', py_dict
           [(''attack_strength'', py_get2 team_stats ''awayTeam'' ''attackStrength''),
            (''defense_strength'', py_get2 team_stats ''awayTeam'' ''defenseStrength''),
            (''recent_form_points'', py_get2 team_stats ''awayTeam'' ''recentFormPoints''),
            (''avg_goals_scored'', py_get2 team_stats ''awayTeam'' ''avgGoalsScored''),
            (''avg_goals_conceded'', py_get2 team_stats ''awayTeam'' ''avgGoalsConceded''),
            (''away_performance'', py_get2 team_stats ''awayTeam'' ''awayPerformance'')])]"

text \<open>The function's twelve blocks, in source order; each reads \<^verbatim>\<open>stats_data\<close> and may
  assign one field of \<^verbatim>\<open>result\<close>.\<close>

definition statistics_steps ::
  "runtime \<Rightarrow> (json \<Rightarrow> (string \<times> json) list \<Rightarrow> exn + (string \<times> json) list) list" where
  "statistics_steps rt =
   [section_get ''eventInformationModel'' ''event_info'' event_info_of,
    section_in ''tournamentStandingsModel'' ''tournament_standings'' standings_cond
      standings_model_of,
    section_in ''recentEventModel'' ''head_to_head'' truthy_cond recent_event_of,
    section_in ''lastEventModel'' ''recent_form'' truthy_cond last_event_of,
    section_in ''soccerIddaaAnalysModel'' ''betting_analysis'' truthy_cond iddaa_analysis_of,
    section_in ''soccerRefereePageModel'' ''referee_info'' referee_cond referee_page_of,
    section_get ''leagueTableModel'' ''tournament_standings'' league_table_of,
    section_get ''headToHeadModel'' ''head_to_head'' (head_to_head_of rt),
    section_get ''recentFormModel'' ''recent_matches'' (recent_form_of rt),
    section_get ''bettingAnalysisModel'' ''betting_analysis'' betting_analysis_of,
    section_get ''refereeInformation'' ''referee_info'' referee_information_of,
    section_get ''teamStatisticsModel'' ''team_stats'' team_stats_of]"

fun run_steps ::
  "(json \<Rightarrow> (string \<times> json) list \<Rightarrow> exn + (string \<times> json) list) list \<Rightarrow> json
     \<Rightarrow> (string \<times> json) list \<Rightarrow> exn + (string \<times> json) list" where
  "run_steps [] stats_data result = Inr result"
| "run_steps (step # steps) stats_data result =
     (case step stats_data result of
        Inl e \<Rightarrow> Inl e
      | Inr result' \<Rightarrow> run_steps steps stats_data result')"

definition initial_statistics :: "string \<Rightarrow> string \<Rightarrow> (string \<times> json) list" where
  "initial_statistics now event_id =
     [(''success'', JBool True),
      (''event_id'', JStr event_id),
      (''timestamp'', JStr now),
      (''event_info'', JObj []),
      (''tournament_standings'', JObj []),
      (''head_to_head'', JObj []),
      (''recent_matches'', JObj []),
      (''betting_analysis'', JObj []),
      (''referee_info'', JObj []),
      (''team_stats'', JObj [])]"

definition process_event_statistics :: "runtime \<Rightarrow> string \<Rightarrow> json \<Rightarrow> string \<Rightarrow> json" where
  "process_event_statistics rt now stats_data event_id =
     (case run_steps (statistics_steps rt) stats_data (initial_statistics now event_id) of
        Inr result \<Rightarrow> JObj result
      | Inl e \<Rightarrow>
          JObj [(''success'', JBool False),
                (''error'', JStr (''Error processing event statistics: '' @ exc_str rt e)),
                (''event_id'', JStr event_id),
                (''raw_data'', stats_data)])"

section \<open>The client: cache, pacing and the three fetches\<close>

text \<open>
  The client's mutable fields (\<^verbatim>\<open>self.cache\<close>, \<^verbatim>\<open>self.last_request_time\<close>), its configured
  durations, and the wall clock that \<^verbatim>\<open>time.time()\<close> reads. Time passes only in
  \<^verbatim>\<open>time.sleep\<close> and while the request is in flight. Request headers, URLs and query
  parameters are left out: they are sent, and nothing the client returns or stores
  depends on them.
\<close>

record cache_entry =
  data :: json
  timestamp :: real

record client =
  cache :: "string \<rightharpoonup> cache_entry"
  last_request_time :: real
  min_request_interval :: real
  cache_duration :: real
  detail_cache_duration :: real
  clock :: real

text \<open>What the outside world supplies to one fetch: the value \<^verbatim>\<open>random.uniform\<close> draws for
  the human-like delay, how long the request takes, and what \<^verbatim>\<open>requests.get\<close> does: it
  raises, or returns a status code, a reason and a body that \<^verbatim>\<open>response.json()\<close> decodes
  (\<open>Some\<close>) or rejects (\<open>None\<close>).\<close>

datatype http_result = Transport_Error | Response int string "json option"

record env =
  human_delay :: real
  latency :: real
  response :: http_result

definition sleep :: "real \<Rightarrow> client \<Rightarrow> client" where
  "sleep d c = c\<lparr>clock := clock c + d\<rparr>"

text \<open>The cache read at the head of each fetch: \<^verbatim>\<open>if cache_key in self.cache\<close>, the age
  test against the caller's duration, and the hit. Reading changes nothing.\<close>

definition cache_get :: "client \<Rightarrow> string \<Rightarrow> real \<Rightarrow> json option" where
  "cache_get c cache_key ttl =
     (case cache c cache_key of
        None \<Rightarrow> None
      | Some cache_entry \<Rightarrow>
          (let cache_age = clock c - timestamp cache_entry
           in if cache_age < ttl then Some (data cache_entry) else None))"

text \<open>The cache write: \<^verbatim>\<open>self.cache[cache_key] = {'data': ..., 'timestamp': time.time()}\<close>.\<close>

definition cache_put :: "client \<Rightarrow> string \<Rightarrow> json \<Rightarrow> client" where
  "cache_put c cache_key v =
     c\<lparr>cache := (cache c)(cache_key \<mapsto> \<lparr>data = v, timestamp = clock c\<rparr>)\<rparr>"

definition apply_rate_limit :: "client \<Rightarrow> client" where
  "apply_rate_limit c =
     (let current_time = clock c;
          time_since_last = current_time - last_request_time c;
          c1 = (if time_since_last < min_request_interval c
                then sleep (min_request_interval c - time_since_last) c
                else c)
      in c1\<lparr>last_request_time := clock c1\<rparr>)"

text \<open>The inline pacing of the detail and statistics fetches: the wait for twice the
  minimum interval. It does not touch \<^verbatim>\<open>last_request_time\<close>.\<close>

definition enhanced_rate_limit :: "client \<Rightarrow> client" where
  "enhanced_rate_limit c =
     (let enhanced_interval = min_request_interval c * 2;
          current_time = clock c
      in if current_time - last_request_time c < enhanced_interval
         then sleep (enhanced_interval - (current_time - last_request_time c)) c
         else c)"

definition matches_cache_key :: "int option \<Rightarrow> bool \<Rightarrow> string" where
  "matches_cache_key limit live_only =
     ''matches_'' @ (case limit of None \<Rightarrow> ''None'' | Some l \<Rightarrow> show_int l) @ ''_''
       @ (if live_only then ''True'' else ''False'')"

definition http_failure :: "int \<Rightarrow> string \<Rightarrow> string" where
  "http_failure status reason = ''HTTP '' @ show_int status @ '': '' @ reason"

definition get_matches ::
  "runtime \<Rightarrow> client \<Rightarrow> int option \<Rightarrow> bool \<Rightarrow> env \<Rightarrow> json \<times> client" where
  "get_matches rt c limit live_only w =
     (let cache_key = matches_cache_key limit live_only in
      case cache_get c cache_key (cache_duration c) of
        Some cached \<Rightarrow> (cached, c)
      | None \<Rightarrow>
          (let c1 = apply_rate_limit c;
               c2 = sleep (human_delay w) c1;
               c3 = sleep (latency w) c2;
               failed = (\<lambda>e. JObj [(''success'', JBool False),
                                   (''error'', JStr (''API request failed: '' @ exc_str rt e)),
                                   (''timestamp'', JStr (isoformat rt (clock c3)))])
           in case response w of
                Transport_Error \<Rightarrow> (failed RequestException, c3)
              | Response status_code reason body \<Rightarrow>
                  if status_code = 200
                  then (case body of
                          None \<Rightarrow> (failed JSONDecodeError, c3)
                        | Some api_data \<Rightarrow>
                            (let processed_data =
                                   process_matches_data rt (isoformat rt (clock c3)) api_data
                                     limit live_only
                             in (processed_data, cache_put c3 cache_key processed_data)))
                  else (JObj [(''success'', JBool False),
                              (''error'', JStr (http_failure status_code reason)),
                              (''timestamp'', JStr (isoformat rt (clock c3)))], c3)))"

text \<open>What the detail and statistics fetches do with a decoded HTTP-200 body; \<^verbatim>\<open>process\<close>
  is the pipeline. \<^verbatim>\<open>data.get\<close> raises on a body that is not a dict.\<close>

definition event_fetch_body ::
  "(json \<Rightarrow> json) \<Rightarrow> client \<Rightarrow> string \<Rightarrow> string \<Rightarrow> bool \<Rightarrow> json \<Rightarrow> exn + json \<times> client" where
  "event_fetch_body process c cache_key event_id use_cache body =
     ebind (py_get body ''isSuccess'' JNull) (\<lambda>is_success.
     ebind (if py_truthy is_success then py_has_key body ''data'' else Inr False) (\<lambda>ok.
     if ok
     then ebind (py_item body ''data'') (\<lambda>event_data.
          (let result = process event_data
           in Inr (result, if use_cache then cache_put c cache_key result else c)))
     else ebind (py_get body ''message'' (JStr ''Unknown error'')) (\<lambda>message.
          Inr (JObj [(''success'', JBool False),
                     (''error'', JStr ''API returned unsuccessful response''),
                     (''event_id'', JStr event_id),
                     (''api_response'', message)], c))))"

definition network_error :: "runtime \<Rightarrow> string \<Rightarrow> exn \<Rightarrow> json" where
  "network_error rt event_id e =
     JObj [(''success'', JBool False),
           (''error'', JStr (''Network error: '' @ exc_str rt e)),
           (''event_id'', JStr event_id)]"

definition get_event_details ::
  "runtime \<Rightarrow> client \<Rightarrow> string \<Rightarrow> bool \<Rightarrow> env \<Rightarrow> json \<times> client" where
  "get_event_details rt c event_id use_cache w =
     (let cache_key = ''event_details_'' @ event_id in
      case (if use_cache then cache_get c cache_key (detail_cache_duration c) else None) of
        Some cached \<Rightarrow> (cached, c)
      | None \<Rightarrow>
          (let c1 = enhanced_rate_limit c;
               c2 = sleep (human_delay w) c1;
               c3 = sleep (latency w) c2
           in case response w of
                Transport_Error \<Rightarrow> (network_error rt event_id RequestException, c3)
              | Response status_code reason body \<Rightarrow>
                  (let c4 = c3\<lparr>last_request_time := clock c3\<rparr> in
                   if status_code = 200
                   then (case body of
                           None \<Rightarrow> (network_error rt event_id JSONDecodeError, c4)
                         | Some api_data \<Rightarrow>
                             (case event_fetch_body
                                     (\<lambda>event_data. process_detailed_event rt
                                        (isoformat rt (clock c4)) event_data event_id)
                                     c4 cache_key event_id use_cache api_data of
                                Inl e \<Rightarrow> (network_error rt event_id e, c4)
                              | Inr r \<Rightarrow> r))
                   else (JObj [(''success'', JBool False),
                               (''error'', JStr (http_failure status_code reason)),
                               (''event_id'', JStr event_id)], c4))))"

definition get_event_statistics ::
  "runtime \<Rightarrow> client \<Rightarrow> string \<Rightarrow> bool \<Rightarrow> env \<Rightarrow> json \<times> client" where
  "get_event_statistics rt c event_id use_cache w =
     (let cache_key = ''event_stats_'' @ event_id in
      case (if use_cache then cache_get c cache_key (detail_cache_duration c) else None) of
        Some cached \<Rightarrow> (cached, c)
      | None \<Rightarrow>
          (let c1 = enhanced_rate_limit c;
               c2 = sleep (human_delay w) c1;
               c3 = sleep (latency w) c2
           in case response w of
                Transport_Error \<Rightarrow> (network_error rt event_id RequestException, c3)
              | Response status_code reason body \<Rightarrow>
                  (let c4 = c3\<lparr>last_request_time := clock c3\<rparr> in
                   if status_code = 200
                   then (case body of
                           None \<Rightarrow>
                             (JObj [(''success'', JBool False),
                                    (''error'', JStr (''JSON parsing failed: ''
                                                        @ exc_str rt JSONDecodeError)),
                                    (''event_id'', JStr event_id)], c4)
                         | Some api_data \<Rightarrow>
                             (case event_fetch_body
                                     (\<lambda>stats_data. process_event_statistics rt
                                        (isoformat rt (clock c4)) stats_data event_id)
                                     c4 cache_key event_id use_cache api_data of
                                Inl e \<Rightarrow> (network_error rt event_id e, c4)
                              | Inr r \<Rightarrow> r))
                   else (JObj [(''success'', JBool False),
                               (''error'', JStr (http_failure status_code reason)),
                               (''event_id'', JStr event_id)], c4))))"

text \<open>The result's \<^verbatim>\<open>success\<close> flag, as the callers read it (\<^verbatim>\<open>result.get('success')\<close>).\<close>

definition succeeded :: "json \<Rightarrow> bool" where
  "succeeded r = (case py_get r ''success'' JNull of Inr v \<Rightarrow> py_truthy v | Inl e \<Rightarrow> False)"

section \<open>Auxiliary definitions for the proofs\<close>

text \<open>Reading a decimal string back, to show that \<open>show_nat\<close> loses nothing.\<close>

definition digit_val :: "char \<Rightarrow> nat" where
  "digit_val c = of_char c - 48"

definition read_nat :: "string \<Rightarrow> nat" where
  "read_nat s = foldl (\<lambda>a c. 10 * a + digit_val c) 0 s"

text \<open>Vocabulary for the statements about main odds: a market of type 1, a market of
  another type, the selections a market iterates over, and the odd of the last selection
  that carries a given number.\<close>

definition is_main_market :: "json \<Rightarrow> bool" where
  "is_main_market m = (case py_get m ''t'' JNull of Inr t \<Rightarrow> py_eq_int t 1 | Inl e \<Rightarrow> False)"

definition is_other_market :: "json \<Rightarrow> bool" where
  "is_other_market m = (case py_get m ''t'' JNull of Inr t \<Rightarrow> \<not> py_eq_int t 1 | Inl e \<Rightarrow> False)"

definition selections_of :: "json \<Rightarrow> exn + json list" where
  "selections_of m = ebind (py_get m ''o'' (JList [])) py_iter"

definition selection_numbered :: "int \<Rightarrow> json \<Rightarrow> bool" where
  "selection_numbered k s = (case py_get s ''no'' JNull of Inr n \<Rightarrow> py_eq_int n k | Inl e \<Rightarrow> False)"

definition last_odd :: "int \<Rightarrow> json list \<Rightarrow> json option" where
  "last_odd k sels =
     (case find (selection_numbered k) (rev sels) of
        None \<Rightarrow> None
      | Some s \<Rightarrow> (case py_get s ''odd'' JNull of Inr v \<Rightarrow> Some v | Inl e \<Rightarrow> None))"

definition example_selections :: "json list" where
  "example_selections =
     [JObj [(''no'', JInt 1), (''odd'', JStr ''1.80'')],
      JObj [(''no'', JInt 0), (''odd'', JStr ''3.20'')],
      JObj [(''no'', JInt 2), (''odd'', JStr ''4.50'')]]"

text \<open>Vocabulary for the statements about the matches pipeline: an event's live flag,
  the match record of an event, the records of the events that pass the live filter, the
  success result holding a list of records, and a small listing to run the pipeline on.\<close>

definition is_live :: "json \<Rightarrow> bool" where
  "is_live event = (case py_get event ''il'' (JBool False) of Inr v \<Rightarrow> py_truthy v | Inl e \<Rightarrow> False)"

definition the_match :: "runtime \<Rightarrow> json \<Rightarrow> json" where
  "the_match rt event = (case match_data rt event of Inr m \<Rightarrow> m | Inl e \<Rightarrow> JNull)"

definition qualifying :: "runtime \<Rightarrow> bool \<Rightarrow> json list \<Rightarrow> json list" where
  "qualifying rt live_only evs = map (the_match rt) (if live_only then filter is_live evs else evs)"

definition success_result :: "string \<Rightarrow> json list \<Rightarrow> json" where
  "success_result now matches =
     JObj [(''success'', JBool True),
           (''total_matches'', JInt (int (length matches))),
           (''timestamp'', JStr now),
           (''matches'', JList matches),
           (''cached'', JBool False)]"

text \<open>What a limit keeps of the qualifying matches.\<close>

definition limit_take :: "int option \<Rightarrow> 'a list \<Rightarrow> 'a list" where
  "limit_take limit xs =
     (case limit of
        None \<Rightarrow> xs
      | Some l \<Rightarrow> if l = 0 then xs else if 0 < l then take (nat l) xs else take 1 xs)"

definition example_runtime :: runtime where
  "example_runtime = \<lparr>repr_of = (\<lambda>v. []), exc_str = (\<lambda>e. []), isoformat = (\<lambda>t. [])\<rparr>"

definition example_event :: "int \<Rightarrow> bool \<Rightarrow> json" where
  "example_event i live = JObj [(''i'', JInt i), (''il'', JBool live)]"

definition example_listing :: "json list \<Rightarrow> (string \<times> json) list" where
  "example_listing evs = [(''isSuccess'', JBool True), (''data'', JObj [(''events'', JList evs)])]"

text \<open>A client, an environment and two response bodies to run the fetches on.\<close>

definition example_client :: client where
  "example_client =
     \<lparr>cache = Map.empty, last_request_time = 0, min_request_interval = 2,
      cache_duration = 300, detail_cache_duration = 600, clock = 100\<rparr>"

definition example_env :: "http_result \<Rightarrow> env" where
  "example_env r = \<lparr>human_delay = 2, latency = 1 / 2, response = r\<rparr>"

definition example_delay :: "real \<Rightarrow> env" where
  "example_delay d = \<lparr>human_delay = d, latency = 0, response = Transport_Error\<rparr>"

definition example_ok_body :: json where
  "example_ok_body = JObj [(''isSuccess'', JBool True), (''data'', JObj [(''events'', JList [])])]"

definition example_failed_body :: json where
  "example_failed_body = JObj [(''isSuccess'', JBool False)]"

text \<open>A result with its top-level \<^verbatim>\<open>timestamp\<close> field removed.\<close>

fun drop_timestamp :: "json \<Rightarrow> json" where
  "drop_timestamp (JObj kvs) = JObj (AList.delete ''timestamp'' kvs)"
| "drop_timestamp v = v"

definition commutes_with_delete ::
  "string \<Rightarrow> (json \<Rightarrow> (string \<times> json) list \<Rightarrow> exn + (string \<times> json) list) \<Rightarrow> bool" where
  "commutes_with_delete k step =
     (\<forall>x r. map_sum id (AList.delete k) (step x r) = step x (AList.delete k r))"

text \<open>What one block of the statistics function does to \<^verbatim>\<open>result\<close>, apart from
  \<^verbatim>\<open>result\<close> itself: it raises, assigns nothing, or assigns a value to its field.\<close>

definition section_get_effect :: "string \<Rightarrow> (json \<Rightarrow> exn + json) \<Rightarrow> json \<Rightarrow> exn + json option" where
  "section_get_effect k build stats_data =
     ebind (py_get stats_data k (JObj [])) (\<lambda>x.
     if py_truthy x then map_sum id Some (build x) else Inr None)"

definition section_in_effect ::
  "string \<Rightarrow> (json \<Rightarrow> exn + bool) \<Rightarrow> (json \<Rightarrow> exn + json) \<Rightarrow> json \<Rightarrow> exn + json option" where
  "section_in_effect k cond build stats_data =
     ebind (py_has_key stats_data k) (\<lambda>present.
     if present
     then ebind (py_item stats_data k) (\<lambda>x.
          ebind (cond x) (\<lambda>c.
          if c then map_sum id Some (build x) else Inr None))
     else Inr None)"

definition apply_effect ::
  "string \<Rightarrow> exn + json option \<Rightarrow> (string \<times> json) list \<Rightarrow> exn + (string \<times> json) list" where
  "apply_effect field m result =
     (case m of
        Inl e \<Rightarrow> Inl e
      | Inr None \<Rightarrow> Inr result
      | Inr (Some v) \<Rightarrow> Inr (AList.update field v result))"

text \<open>The twelve blocks as (raw key, result field, effect), in source order.\<close>

definition statistics_plan :: "runtime \<Rightarrow> (string \<times> string \<times> (json \<Rightarrow> exn + json option)) list" where
  "statistics_plan rt =
   [(''eventInformationModel'', ''event_info'',
       section_get_effect ''eventInformationModel'' event_info_of),
    (''tournamentStandingsModel'', ''tournament_standings'',
       section_in_effect ''tournamentStandingsModel'' standings_cond standings_model_of),
    (''recentEventModel'', ''head_to_head'',
       section_in_effect ''recentEventModel'' truthy_cond recent_event_of),
    (''lastEventModel'', ''recent_form'',
       section_in_effect ''lastEventModel'' truthy_cond last_event_of),
    (''soccerIddaaAnalysModel'', ''betting_analysis'',
       section_in_effect ''soccerIddaaAnalysModel'' truthy_cond iddaa_analysis_of),
    (''soccerRefereePageModel'', ''referee_info'',
       section_in_effect ''soccerRefereePageModel'' referee_cond referee_page_of),
    (''leagueTableModel'', ''tournament_standings'',
       section_get_effect ''leagueTableModel'' league_table_of),
    (''headToHeadModel'', ''head_to_head'',
       section_get_effect ''headToHeadModel'' (head_to_head_of rt)),
    (''recentFormModel'', ''recent_matches'',
       section_get_effect ''recentFormModel'' (recent_form_of rt)),
    (''bettingAnalysisModel'', ''betting_analysis'',
       section_get_effect ''bettingAnalysisModel'' betting_analysis_of),
    (''refereeInformation'', ''referee_info'',
       section_get_effect ''refereeInformation'' referee_information_of),
    (''teamStatisticsModel'', ''team_stats'',
       section_get_effect ''teamStatisticsModel'' team_stats_of)]"

fun run_plan ::
  "(string \<times> string \<times> (json \<Rightarrow> exn + json option)) list \<Rightarrow> json \<Rightarrow> (string \<times> json) list
     \<Rightarrow> exn + (string \<times> json) list" where
  "run_plan [] stats_data result = Inr result"
| "run_plan ((k, field, effect) # plan) stats_data result =
     (case apply_effect field (effect stats_data) result of
        Inl e \<Rightarrow> Inl e
      | Inr result' \<Rightarrow> run_plan plan stats_data result')"

text \<open>A raw key that is missing or holds a falsy value (\<^verbatim>\<open>None\<close>, \<^verbatim>\<open>{}\<close>, \<^verbatim>\<open>[]\<close>, ...).\<close>

definition absent_or_empty :: "(string \<times> json) list \<Rightarrow> string \<Rightarrow> bool" where
  "absent_or_empty kvs k = (case map_of kvs k of None \<Rightarrow> True | Some x \<Rightarrow> \<not> py_truthy x)"

text \<open>Which raw keys feed which field of the result, in source order.\<close>

definition section_keys :: "(string \<times> string) list" where
  "section_keys =
   [(''eventInformationModel'', ''event_info''),
    (''tournamentStandingsModel'', ''tournament_standings''),
    (''recentEventModel'', ''head_to_head''),
    (''lastEventModel'', ''recent_form''),
    (''soccerIddaaAnalysModel'', ''betting_analysis''),
    (''soccerRefereePageModel'', ''referee_info''),
    (''leagueTableModel'', ''tournament_standings''),
    (''headToHeadModel'', ''head_to_head''),
    (''recentFormModel'', ''recent_matches''),
    (''bettingAnalysisModel'', ''betting_analysis''),
    (''refereeInformation'', ''referee_info''),
    (''teamStatisticsModel'', ''team_stats'')]"

definition raw_keys :: "string \<Rightarrow> string list" where
  "raw_keys field = map fst (filter (\<lambda>p. snd p = field) section_keys)"

definition result_field :: "json \<Rightarrow> string \<Rightarrow> json option" where
  "result_field r f = (case r of JObj kvs \<Rightarrow> map_of kvs f | _ \<Rightarrow> None)"

definition example_statistics :: "(string \<times> json) list" where
  "example_statistics = [(''headToHeadModel'', JObj [(''totalMatches'', JInt 3)])]"

text \<open>Values Python can hash, that is, look up in a dict: everything but lists and dicts.\<close>

fun is_hashable :: "json \<Rightarrow> bool" where
  "is_hashable (JList xs) = False"
| "is_hashable (JObj kvs) = False"
| "is_hashable v = True"

section \<open>Properties of the Python primitives\<close>

lemma ebind_simps [simp]:
  "ebind (Inl e) f = Inl e"
  "ebind (Inr x) f = f x"
  by (simp_all add: ebind_def)

lemma digit_val_digit: "d < 10 \<Longrightarrow> digit_val (''0123456789'' ! d) = d"
proof -
  assume "d < 10"
  then have "d \<in> {0,1,2,3,4,5,6,7,8,9}" by auto
  then show ?thesis by (auto simp: digit_val_def)
qed

lemma read_show_nat: "read_nat (show_nat n) = n"
proof (induction n rule: show_nat.induct)
  case (1 n)
  show ?case
  proof (cases "n < 10")
    case True
    then show ?thesis by (subst show_nat.simps) (simp add: read_nat_def digit_val_digit)
  next
    case False
    have "read_nat (show_nat n) = 10 * read_nat (show_nat (n div 10)) + digit_val (''0123456789'' ! (n mod 10))"
      using False by (subst show_nat.simps) (simp add: read_nat_def)
    also have "\<dots> = 10 * (n div 10) + n mod 10"
      using 1 False by (simp add: digit_val_digit)
    finally show ?thesis by simp
  qed
qed

lemma show_nat_digits: "set (show_nat n) \<subseteq> set ''0123456789''"
proof (induction n rule: show_nat.induct)
  case (1 n)
  have d: "''0123456789'' ! k \<in> set ''0123456789''" if "k < 10" for k
    using that nth_mem [of k "''0123456789''"] by simp
  show ?case
  proof (cases "n < 10")
    case True
    then show ?thesis using d [of n] by (subst show_nat.simps) simp
  next
    case False
    then show ?thesis using 1 d [of "n mod 10"] by (subst show_nat.simps) simp
  qed
qed

lemma show_nat_no_minus: "show_nat n \<noteq> CHR ''-'' # s"
proof
  assume "show_nat n = CHR ''-'' # s"
  then have "CHR ''-'' \<in> set (show_nat n)" by simp
  then show False using show_nat_digits [of n] by auto
qed

lemma show_int_inj: "show_int a = show_int b \<longleftrightarrow> a = b"
proof
  assume eq: "show_int a = show_int b"
  have nm: "show_nat m \<noteq> CHR ''-'' # show_nat k" for m k
    by (rule show_nat_no_minus)
  have sign: "a < 0 \<longleftrightarrow> b < 0"
    using eq nm [of "nat b" "nat (- a)"] nm [of "nat a" "nat (- b)"]
    by (auto simp: show_int_def split: if_splits)
  show "a = b"
  proof (cases "a < 0")
    case True
    with sign eq have "show_nat (nat (- a)) = show_nat (nat (- b))" by (simp add: show_int_def)
    then have "nat (- a) = nat (- b)" by (metis read_show_nat)
    with True sign show ?thesis by simp
  next
    case False
    with sign eq have "show_nat (nat a) = show_nat (nat b)" by (simp add: show_int_def)
    then have "nat a = nat b" by (metis read_show_nat)
    with False sign show ?thesis by simp
  qed
qed simp

lemma show_int_literals:
  "show_int 1 = ''1''" "show_int 2 = ''2''" "show_int 3 = ''3''" "show_int 4 = ''4''"
  "show_int 5 = ''5''" "show_int 6 = ''6''" "show_int 7 = ''7''" "show_int 8 = ''8''"
  "show_int 9 = ''9''" "show_int 10 = ''10''" "show_int 11 = ''11''" "show_int 12 = ''12''"
  "show_int 13 = ''13''" "show_int 14 = ''14''" "show_int 15 = ''15''"
  by (simp_all add: show_int_def show_nat.simps)

lemma show_int_is_aux: "show_int k = s \<Longrightarrow> (show_int n = s \<longleftrightarrow> n = k)"
  using show_int_inj [of n k] by auto

lemmas show_int_is = show_int_literals [THEN show_int_is_aux]

section \<open>Market categories\<close>

text \<open>
  C9. Market categorization is total and deterministic: whatever the type code, the
  category is one of the six fixed names; for an integer type code it is the bucket of
  the code (1, 5, 10 main; 2, 3, 8 goals; 4, 6 handicap; 7, 9, 14, 15 player; 11, 12, 13
  events), and every other integer falls into \<^verbatim>\<open>other_markets\<close>. Being a function of
  its arguments alone, it gives the same category on every call.
\<close>

theorem categorize_market_total:
  "categorize_market rt t st \<in> set [''main_markets'', ''goals_markets'', ''handicap_markets'',
       ''player_markets'', ''events_markets'', ''other_markets'']
   \<and> categorize_market rt (JInt n) st =
       (if n \<in> {1, 5, 10} then ''main_markets''
        else if n \<in> {2, 3, 8} then ''goals_markets''
        else if n \<in> {4, 6} then ''handicap_markets''
        else if n \<in> {7, 9, 14, 15} then ''player_markets''
        else if n \<in> {11, 12, 13} then ''events_markets''
        else ''other_markets'')"
proof
  show "categorize_market rt t st \<in> set [''main_markets'', ''goals_markets'', ''handicap_markets'',
       ''player_markets'', ''events_markets'', ''other_markets'']"
    unfolding categorize_market_def Let_def by simp
  show "categorize_market rt (JInt n) st =
       (if n \<in> {1, 5, 10} then ''main_markets''
        else if n \<in> {2, 3, 8} then ''goals_markets''
        else if n \<in> {4, 6} then ''handicap_markets''
        else if n \<in> {7, 9, 14, 15} then ''player_markets''
        else if n \<in> {11, 12, 13} then ''events_markets''
        else ''other_markets'')"
    unfolding categorize_market_def Let_def by (simp add: show_int_is)
qed

section \<open>Main odds\<close>

lemma py_get_cases:
  obtains (dict) kvs where "x = JObj kvs" "py_get x k d = Inr (dget kvs k d)"
        | (other) "py_get x k d = Inl AttributeError" "\<And>k' d'. py_get x k' d' = Inl AttributeError"
  by (cases x) auto

lemma is_other_marketE:
  assumes "is_other_market m"
  obtains kvs where "m = JObj kvs" "\<not> py_eq_int (dget kvs ''t'' JNull) 1"
  using assms by (cases m) (auto simp: is_other_market_def)

lemma is_main_marketE:
  assumes "is_main_market m"
  obtains kvs where "m = JObj kvs" "py_eq_int (dget kvs ''t'' JNull) 1"
  using assms by (cases m) (auto simp: is_main_market_def)

lemma set_main_odd_keys:
  "fst ` set (set_main_odd n v acc) \<subseteq> {''home_win'', ''draw'', ''away_win''} \<union> fst ` set acc"
  unfolding set_main_odd_def by (simp add: AList.dom_update subset_insertI2)

lemma odds_loop_keys:
  "odds_loop sels acc = Inr r \<Longrightarrow>
   fst ` set r \<subseteq> {''home_win'', ''draw'', ''away_win''} \<union> fst ` set acc"
proof (induction sels arbitrary: acc)
  case Nil
  then show ?case by auto
next
  case (Cons s sels)
  from Cons.prems obtain f where s: "s = JObj f" by (cases s) simp_all
  let ?acc = "set_main_odd (dget f ''no'' JNull) (dget f ''odd'' JNull) acc"
  from Cons.prems s have "odds_loop sels ?acc = Inr r" by simp
  then have "fst ` set r \<subseteq> {''home_win'', ''draw'', ''away_win''} \<union> fst ` set ?acc"
    by (rule Cons.IH)
  then show ?case
    using set_main_odd_keys [of "dget f ''no'' JNull" "dget f ''odd'' JNull" acc] by blast
qed

lemma markets_loop_keys:
  "markets_loop ms acc = Inr r \<Longrightarrow>
   fst ` set r \<subseteq> {''home_win'', ''draw'', ''away_win''} \<union> fst ` set acc"
proof (induction ms arbitrary: acc)
  case Nil
  then show ?case by auto
next
  case (Cons m ms)
  from Cons.prems obtain kvs where m: "m = JObj kvs" by (cases m) simp_all
  show ?case
  proof (cases "py_eq_int (dget kvs ''t'' JNull) 1")
    case True
    with Cons.prems m have "ebind (py_iter (dget kvs ''o'' (JList []))) (\<lambda>os. odds_loop os acc) = Inr r"
      by simp
    then obtain sels where "odds_loop sels acc = Inr r"
      by (cases "py_iter (dget kvs ''o'' (JList []))") simp_all
    then show ?thesis by (rule odds_loop_keys)
  next
    case False
    with Cons.prems m have "markets_loop ms acc = Inr r" by simp
    then show ?thesis by (rule Cons.IH)
  qed
qed

lemma extract_main_odds_keys:
  assumes "extract_main_odds markets = Inr r"
  shows "fst ` set r \<subseteq> {''home_win'', ''draw'', ''away_win''}"
proof -
  from assms obtain ms where "markets_loop ms [] = Inr r"
    by (cases "py_iter markets") (simp_all add: extract_main_odds_def)
  from markets_loop_keys [OF this] show ?thesis by simp
qed

lemma markets_loop_skip:
  "\<forall>m\<in>set pre. is_other_market m \<Longrightarrow> markets_loop (pre @ rest) acc = markets_loop rest acc"
proof (induction pre)
  case Nil
  show ?case by simp
next
  case (Cons m pre)
  then have "is_other_market m" by simp
  then obtain kvs where "m = JObj kvs" "\<not> py_eq_int (dget kvs ''t'' JNull) 1"
    by (rule is_other_marketE)
  with Cons show ?case by simp
qed

lemma markets_loop_main:
  assumes "is_main_market m"
  shows "markets_loop (m # post) acc = ebind (selections_of m) (\<lambda>os. odds_loop os acc)"
proof -
  from assms obtain kvs where "m = JObj kvs" "py_eq_int (dget kvs ''t'' JNull) 1"
    by (rule is_main_marketE)
  then show ?thesis by (simp add: selections_of_def)
qed

lemma py_eq_int_excl:
  "py_eq_int n 1 \<Longrightarrow> \<not> py_eq_int n 0"
  "py_eq_int n 1 \<Longrightarrow> \<not> py_eq_int n 2"
  "py_eq_int n 0 \<Longrightarrow> \<not> py_eq_int n 2"
  by (cases n; simp split: if_splits)+

lemma map_of_set_main_odd:
  "map_of (set_main_odd n v acc) ''home_win'' = (if py_eq_int n 1 then Some v else map_of acc ''home_win'')"
  "map_of (set_main_odd n v acc) ''draw'' = (if py_eq_int n 0 then Some v else map_of acc ''draw'')"
  "map_of (set_main_odd n v acc) ''away_win'' = (if py_eq_int n 2 then Some v else map_of acc ''away_win'')"
  using py_eq_int_excl [of n] by (auto simp: set_main_odd_def AList.update_conv')

lemma find_app:
  "find P (xs @ ys) = (case find P xs of None \<Rightarrow> find P ys | Some x \<Rightarrow> Some x)"
  by (induction xs) auto

lemma odds_loop_lookup:
  "odds_loop sels acc = Inr r \<Longrightarrow> (k, n) \<in> {(''home_win'', 1), (''draw'', 0), (''away_win'', 2)} \<Longrightarrow>
   map_of r k = (case last_odd n sels of Some v \<Rightarrow> Some v | None \<Rightarrow> map_of acc k)"
proof (induction sels arbitrary: acc)
  case Nil
  then show ?case by (auto simp: last_odd_def)
next
  case (Cons s sels)
  from Cons.prems(1) obtain f where s: "s = JObj f"
    by (cases s) auto
  let ?acc = "set_main_odd (dget f ''no'' JNull) (dget f ''odd'' JNull) acc"
  from Cons.prems(1) s have "odds_loop sels ?acc = Inr r" by simp
  from Cons.IH [OF this Cons.prems(2)]
  have IH: "map_of r k = (case last_odd n sels of None \<Rightarrow> map_of ?acc k | Some v \<Rightarrow> Some v)" .
  show ?case
  proof (cases "find (selection_numbered n) (rev sels)")
    case None
    then have "last_odd n sels = None" by (simp add: last_odd_def)
    moreover have "last_odd n (s # sels) = (if py_eq_int (dget f ''no'' JNull) n then Some (dget f ''odd'' JNull) else None)"
      using None s by (simp add: last_odd_def find_app selection_numbered_def)
    ultimately show ?thesis using IH Cons.prems(2) by (auto simp: map_of_set_main_odd)
  next
    case (Some a)
    then have "last_odd n (s # sels) = last_odd n sels"
      by (simp add: last_odd_def find_app)
    moreover from Some have "selection_numbered n a" by (auto simp: find_Some_iff)
    then obtain g where "a = JObj g" by (cases a) (auto simp: selection_numbered_def)
    with Some have "last_odd n sels \<noteq> None" by (simp add: last_odd_def)
    ultimately show ?thesis using IH by auto
  qed
qed

text \<open>
  C8. Main-odds extraction takes the first market whose type code equals 1 and ignores
  every later market: the result has at most the keys \<^verbatim>\<open>home_win\<close>, \<^verbatim>\<open>draw\<close> and
  \<^verbatim>\<open>away_win\<close>; it is the empty mapping when no market has type 1; when the markets
  before the first type-1 market are of other types, the result is what that market's
  selections give, whatever follows it; and the selections map by number, 1 to
  \<^verbatim>\<open>home_win\<close>, 0 to \<^verbatim>\<open>draw\<close>, 2 to \<^verbatim>\<open>away_win\<close>, the last selection of a number
  giving the odd.
\<close>

theorem extract_main_odds_first_type1:
  "(\<forall>r. extract_main_odds markets = Inr r \<longrightarrow>
        fst ` set r \<subseteq> {''home_win'', ''draw'', ''away_win''})
   \<and> ((\<forall>m\<in>set ms. is_other_market m) \<longrightarrow> extract_main_odds (JList ms) = Inr [])
   \<and> ((\<forall>m\<in>set pre. is_other_market m) \<and> is_main_market m \<longrightarrow>
        extract_main_odds (JList (pre @ m # post)) =
          ebind (selections_of m) (\<lambda>sels. odds_loop sels []))
   \<and> ((\<forall>s\<in>set sels. \<exists>f. s = JObj f) \<longrightarrow>
        (\<exists>r. odds_loop sels [] = Inr r
           \<and> map_of r ''home_win'' = last_odd 1 sels
           \<and> map_of r ''draw'' = last_odd 0 sels
           \<and> map_of r ''away_win'' = last_odd 2 sels))"
proof (intro conjI allI impI)
  fix r assume "extract_main_odds markets = Inr r"
  then show "fst ` set r \<subseteq> {''home_win'', ''draw'', ''away_win''}"
    by (rule extract_main_odds_keys)
next
  assume "\<forall>m\<in>set ms. is_other_market m"
  then show "extract_main_odds (JList ms) = Inr []"
    using markets_loop_skip [of ms "[]" "[]"] by (simp add: extract_main_odds_def)
next
  assume "(\<forall>m\<in>set pre. is_other_market m) \<and> is_main_market m"
  then show "extract_main_odds (JList (pre @ m # post)) =
          ebind (selections_of m) (\<lambda>sels. odds_loop sels [])"
    using markets_loop_skip [of pre "m # post" "[]"] markets_loop_main [of m post "[]"]
    by (simp add: extract_main_odds_def)
next
  assume dicts: "\<forall>s\<in>set sels. \<exists>f. s = JObj f"
  have "\<exists>r. odds_loop sels acc = Inr r" for acc
    using dicts by (induction sels arbitrary: acc) auto
  then obtain r where r: "odds_loop sels [] = Inr r" by blast
  have "map_of r ''home_win'' = last_odd 1 sels" "map_of r ''draw'' = last_odd 0 sels"
       "map_of r ''away_win'' = last_odd 2 sels"
    using odds_loop_lookup [OF r, of "''home_win''" 1] odds_loop_lookup [OF r, of "''draw''" 0]
      odds_loop_lookup [OF r, of "''away_win''" 2]
    by (auto split: option.splits)
  with r show "\<exists>r. odds_loop sels [] = Inr r
           \<and> map_of r ''home_win'' = last_odd 1 sels
           \<and> map_of r ''draw'' = last_odd 0 sels
           \<and> map_of r ''away_win'' = last_odd 2 sels" by blast
qed

theorem extract_main_odds_first_type1_witness:
  "extract_main_odds (JList [JObj [(''t'', JInt 2)]]) = Inr []
   \<and> extract_main_odds
        (JList [JObj [(''t'', JInt 2)],
                JObj [(''t'', JInt 1), (''o'', JList example_selections)],
                JObj [(''t'', JInt 1), (''o'', JList [JObj [(''no'', JInt 1), (''odd'', JStr ''9.99'')]])],
                JNull])
      = Inr [(''home_win'', JStr ''1.80''), (''draw'', JStr ''3.20''), (''away_win'', JStr ''4.50'')]
   \<and> last_odd 1 example_selections = Some (JStr ''1.80'')
   \<and> last_odd 0 example_selections = Some (JStr ''3.20'')
   \<and> last_odd 2 example_selections = Some (JStr ''4.50'')"
proof -
  let ?m = "JObj [(''t'', JInt 1), (''o'', JList example_selections)]"
  let ?post = "[JObj [(''t'', JInt 1), (''o'', JList [JObj [(''no'', JInt 1), (''odd'', JStr ''9.99'')]])], JNull]"
  have pre: "\<forall>m\<in>set [JObj [(''t'', JInt 2)]]. is_other_market m"
    by (simp add: is_other_market_def dget_def)
  have main: "is_main_market ?m"
    by (simp add: is_main_market_def dget_def)
  have dicts: "\<forall>s\<in>set example_selections. \<exists>f. s = JObj f"
    by (simp add: example_selections_def)
  have run: "odds_loop example_selections [] =
      Inr [(''home_win'', JStr ''1.80''), (''draw'', JStr ''3.20''), (''away_win'', JStr ''4.50'')]"
    by (simp add: example_selections_def dget_def set_main_odd_def)
  note T = extract_main_odds_first_type1
    [of "JList []" "[JObj [(''t'', JInt 2)]]" "[JObj [(''t'', JInt 2)]]" ?m ?post example_selections]
  from T pre have a: "extract_main_odds (JList [JObj [(''t'', JInt 2)]]) = Inr []" by blast
  from T pre main have "extract_main_odds (JList ([JObj [(''t'', JInt 2)]] @ ?m # ?post)) =
      ebind (selections_of ?m) (\<lambda>sels. odds_loop sels [])" by blast
  then have "extract_main_odds (JList ([JObj [(''t'', JInt 2)]] @ ?m # ?post)) =
      Inr [(''home_win'', JStr ''1.80''), (''draw'', JStr ''3.20''), (''away_win'', JStr ''4.50'')]"
    using run by (simp add: selections_of_def dget_def)
  then have b: "extract_main_odds (JList [JObj [(''t'', JInt 2)], ?m,
                JObj [(''t'', JInt 1), (''o'', JList [JObj [(''no'', JInt 1), (''odd'', JStr ''9.99'')]])],
                JNull]) =
      Inr [(''home_win'', JStr ''1.80''), (''draw'', JStr ''3.20''), (''away_win'', JStr ''4.50'')]"
    by (simp only: append.simps)
  from T dicts run have c: "last_odd 1 example_selections = Some (JStr ''1.80'')"
     "last_odd 0 example_selections = Some (JStr ''3.20'')"
     "last_odd 2 example_selections = Some (JStr ''4.50'')" by auto
  show ?thesis by (intro conjI) (fact a, fact b, fact c(1), fact c(2), fact c(3))
qed

section \<open>The matches pipeline\<close>

lemma py_dict_Inr_dict: "py_dict entries = Inr v \<Longrightarrow> \<exists>kvs. v = JObj kvs"
  by (cases "mk_obj entries") (auto simp: py_dict_def)

lemma match_data_dict:
  assumes "match_data rt event = Inr m"
  obtains kvs where "event = JObj kvs"
  using assms by (cases event) (simp_all add: match_data_def py_dict_def)

lemma skip_event_wf:
  assumes "match_data rt event = Inr m"
  shows "skip_event live_only event = Inr (live_only \<and> \<not> is_live event)"
proof -
  from assms obtain kvs where "event = JObj kvs" by (rule match_data_dict)
  then show ?thesis by (simp add: skip_event_def is_live_def)
qed

lemma qualifying_Cons:
  "match_data rt e = Inr m \<Longrightarrow>
   qualifying rt live_only (e # evs) =
     (if live_only \<and> \<not> is_live e then qualifying rt live_only evs
      else m # qualifying rt live_only evs)"
  by (simp add: qualifying_def the_match_def)

lemma matches_loop_step:
  assumes "match_data rt e = Inr m"
  shows "matches_loop rt limit live_only (e # evs) acc =
           (if live_only \<and> \<not> is_live e then matches_loop rt limit live_only evs acc
            else if limit_reached limit (Suc (length acc)) then Inr (acc @ [m])
            else matches_loop rt limit live_only evs (acc @ [m]))"
  by (simp add: skip_event_wf [OF assms] assms)

lemma matches_loop_unlimited:
  assumes "\<forall>e\<in>set evs. \<exists>m. match_data rt e = Inr m" and "limit = None \<or> limit = Some 0"
  shows "matches_loop rt limit live_only evs acc = Inr (acc @ qualifying rt live_only evs)"
  using assms(1)
proof (induction evs arbitrary: acc)
  case Nil
  show ?case by (simp add: qualifying_def)
next
  case (Cons e evs)
  then obtain m where m: "match_data rt e = Inr m" by auto
  have nl: "\<not> limit_reached limit n" for n
    using assms(2) by (auto simp: limit_reached_def)
  from Cons have IH: "matches_loop rt limit live_only evs acc' = Inr (acc' @ qualifying rt live_only evs)" for acc'
    by simp
  show ?case
  proof (cases "live_only \<and> \<not> is_live e")
    case True
    have "matches_loop rt limit live_only (e # evs) acc = matches_loop rt limit live_only evs acc"
      unfolding matches_loop_step [OF m] using True by simp
    moreover have "qualifying rt live_only (e # evs) = qualifying rt live_only evs"
      unfolding qualifying_Cons [OF m] using True by simp
    ultimately show ?thesis using IH by (simp only:)
  next
    case False
    have "matches_loop rt limit live_only (e # evs) acc = matches_loop rt limit live_only evs (acc @ [m])"
      unfolding matches_loop_step [OF m] using False nl by auto
    moreover have "qualifying rt live_only (e # evs) = m # qualifying rt live_only evs"
      unfolding qualifying_Cons [OF m] using False by simp
    ultimately show ?thesis unfolding IH by simp
  qed
qed

lemma matches_loop_limited:
  assumes "\<forall>e\<in>set evs. \<exists>m. match_data rt e = Inr m" and "0 < l" and "length acc < nat l"
  shows "matches_loop rt (Some l) live_only evs acc =
           Inr (acc @ take (nat l - length acc) (qualifying rt live_only evs))"
  using assms(1,3)
proof (induction evs arbitrary: acc)
  case Nil
  show ?case by (simp add: qualifying_def)
next
  case (Cons e evs)
  then obtain m where m: "match_data rt e = Inr m" by auto
  from Cons.prems have wf: "\<forall>e\<in>set evs. \<exists>m. match_data rt e = Inr m" by simp
  show ?case
  proof (cases "live_only \<and> \<not> is_live e")
    case True
    have "matches_loop rt (Some l) live_only (e # evs) acc = matches_loop rt (Some l) live_only evs acc"
      unfolding matches_loop_step [OF m] using True by simp
    moreover have "qualifying rt live_only (e # evs) = qualifying rt live_only evs"
      unfolding qualifying_Cons [OF m] using True by simp
    ultimately show ?thesis using Cons.IH [OF wf Cons.prems(2)] by (simp only:)
  next
    case False
    have q: "qualifying rt live_only (e # evs) = m # qualifying rt live_only evs"
      unfolding qualifying_Cons [OF m] using False by simp
    show ?thesis
    proof (cases "limit_reached (Some l) (Suc (length acc))")
      case True
      with assms(2) Cons.prems(2) have k: "nat l - length acc = Suc 0"
        by (auto simp: limit_reached_def)
      have "matches_loop rt (Some l) live_only (e # evs) acc = Inr (acc @ [m])"
        unfolding matches_loop_step [OF m] using False True by auto
      then show ?thesis unfolding q k by simp
    next
      case nr: False
      with assms(2) have lt: "length (acc @ [m]) < nat l"
        by (auto simp: limit_reached_def)
      then have k: "nat l - length acc = Suc (nat l - length (acc @ [m]))" by simp
      have "matches_loop rt (Some l) live_only (e # evs) acc = matches_loop rt (Some l) live_only evs (acc @ [m])"
        unfolding matches_loop_step [OF m] using False nr by auto
      then show ?thesis unfolding q k Cons.IH [OF wf lt] by simp
    qed
  qed
qed

lemma matches_loop_negative:
  assumes "\<forall>e\<in>set evs. \<exists>m. match_data rt e = Inr m" and "l < 0"
  shows "matches_loop rt (Some l) live_only evs acc =
           Inr (acc @ take 1 (qualifying rt live_only evs))"
  using assms(1)
proof (induction evs arbitrary: acc)
  case Nil
  show ?case by (simp add: qualifying_def)
next
  case (Cons e evs)
  then obtain m where m: "match_data rt e = Inr m" by auto
  from Cons.prems have wf: "\<forall>e\<in>set evs. \<exists>m. match_data rt e = Inr m" by simp
  have r: "limit_reached (Some l) n" for n
    using assms(2) by (simp add: limit_reached_def)
  show ?case
  proof (cases "live_only \<and> \<not> is_live e")
    case True
    have "matches_loop rt (Some l) live_only (e # evs) acc = matches_loop rt (Some l) live_only evs acc"
      unfolding matches_loop_step [OF m] using True by simp
    moreover have "qualifying rt live_only (e # evs) = qualifying rt live_only evs"
      unfolding qualifying_Cons [OF m] using True by simp
    ultimately show ?thesis using Cons.IH [OF wf] by (simp only:)
  next
    case False
    have q: "qualifying rt live_only (e # evs) = m # qualifying rt live_only evs"
      unfolding qualifying_Cons [OF m] using False by simp
    have "matches_loop rt (Some l) live_only (e # evs) acc = Inr (acc @ [m])"
      unfolding matches_loop_step [OF m] using False r by auto
    then show ?thesis unfolding q by simp
  qed
qed

lemma matches_loop_wf:
  assumes "\<forall>e\<in>set evs. \<exists>m. match_data rt e = Inr m"
  shows "matches_loop rt limit live_only evs [] = Inr (limit_take limit (qualifying rt live_only evs))"
proof (cases limit)
  case None
  then show ?thesis using matches_loop_unlimited [OF assms, of limit live_only "[]"]
    by (simp add: limit_take_def)
next
  case (Some l)
  consider "l = 0" | "0 < l" | "l < 0" by linarith
  then show ?thesis
  proof cases
    case 1
    with Some show ?thesis using matches_loop_unlimited [OF assms, of limit live_only "[]"]
      by (simp add: limit_take_def)
  next
    case 2
    with Some show ?thesis using matches_loop_limited [OF assms 2, of "[]" live_only]
      by (simp add: limit_take_def)
  next
    case 3
    with Some show ?thesis using matches_loop_negative [OF assms 3, of live_only "[]"]
      by (simp add: limit_take_def)
  qed
qed

lemma process_matches_wf:
  assumes "py_truthy (dget api ''isSuccess'' JNull)"
      and "map_of api ''data'' = Some d"
      and "py_get d ''events'' (JList []) = Inr (JList evs)"
      and "\<forall>e\<in>set evs. \<exists>m. match_data rt e = Inr m"
  shows "process_matches_data rt now (JObj api) limit live_only =
           success_result now (limit_take limit (qualifying rt live_only evs))"
  using assms(1,2,3)
  by (simp add: process_matches_data_def matches_body_def matches_loop_wf [OF assms(4)]
      success_result_def)

lemma mk_obj_all_Inr: "mk_obj (map (\<lambda>(k, v). (k, Inr v)) kvs) = Inr kvs"
  by (induction kvs) auto

lemma match_data_no_markets:
  assumes "map_of kvs ''m'' = None"
  shows "\<exists>m. match_data rt (JObj kvs) = Inr m"
  using assms by (simp add: match_data_def py_dict_def dget_def extract_main_odds_def)

lemma example_event_ok: "\<exists>m. match_data rt (example_event i live) = Inr m"
  unfolding example_event_def by (rule match_data_no_markets) simp

lemma is_live_example [simp]: "is_live (example_event i live) = live"
  by (simp add: example_event_def is_live_def dget_def)

lemma matches_loop_zero:
  "matches_loop rt (Some 0) live_only evs acc = matches_loop rt None live_only evs acc"
  by (induction evs arbitrary: acc) (simp_all add: limit_reached_def split: sum.splits)

text \<open>
  C7 as stated fails for limits that are not positive: with three qualifying events, the
  limit 0 returns all three records, not the first 0 of them, and the limit -1 returns
  the first record alone.
\<close>

theorem matches_limit_zero_and_negative:
  "process_matches_data example_runtime ''t''
      (JObj (example_listing [example_event 1 True, example_event 2 True, example_event 3 True]))
      (Some 0) True =
     success_result ''t''
       [the_match example_runtime (example_event 1 True),
        the_match example_runtime (example_event 2 True),
        the_match example_runtime (example_event 3 True)]
   \<and> process_matches_data example_runtime ''t''
      (JObj (example_listing [example_event 1 True, example_event 2 True, example_event 3 True]))
      (Some (- 1)) True =
     success_result ''t'' [the_match example_runtime (example_event 1 True)]"
proof -
  let ?three = "[example_event 1 True, example_event 2 True, example_event 3 True]"
  have ok: "py_truthy (dget (example_listing ?three) ''isSuccess'' JNull)"
    by (simp add: example_listing_def dget_def)
  have d: "map_of (example_listing ?three) ''data'' = Some (JObj [(''events'', JList ?three)])"
    by (simp add: example_listing_def)
  have ev: "py_get (JObj [(''events'', JList ?three)]) ''events'' (JList []) = Inr (JList ?three)"
    by (simp add: dget_def)
  have wf: "\<forall>e\<in>set ?three. \<exists>m. match_data example_runtime e = Inr m"
    by (simp add: example_event_ok)
  have a: "process_matches_data example_runtime ''t'' (JObj (example_listing ?three)) (Some 0) True =
     success_result ''t''
       [the_match example_runtime (example_event 1 True),
        the_match example_runtime (example_event 2 True),
        the_match example_runtime (example_event 3 True)]"
    using process_matches_wf [OF ok d ev wf, of "''t''" "Some 0" True]
    by (simp add: limit_take_def qualifying_def)
  have b: "process_matches_data example_runtime ''t'' (JObj (example_listing ?three)) (Some (- 1)) True =
     success_result ''t'' [the_match example_runtime (example_event 1 True)]"
    using process_matches_wf [OF ok d ev wf, of "''t''" "Some (- 1)" True]
    by (simp add: limit_take_def qualifying_def)
  show ?thesis by (intro conjI) (fact a, fact b)
qed

text \<open>
  C7, amended. On a well-formed listing (the success flag set, an event list, every event a
  dict whose markets can be read), the matches pipeline with \<^verbatim>\<open>live_only\<close> set and no
  limit returns exactly the records of the events whose live flag is truthy, in their
  original order; a positive limit \<open>l\<close> keeps the first \<open>l\<close> records of the events
  that passed the filter, in that order; and the limit 0, like no limit, keeps them all.
\<close>

theorem process_matches_filter_and_limit:
  assumes "py_truthy (dget api ''isSuccess'' JNull)"
      and "map_of api ''data'' = Some d"
      and "py_get d ''events'' (JList []) = Inr (JList evs)"
      and "\<forall>e\<in>set evs. \<exists>m. match_data rt e = Inr m"
  shows "process_matches_data rt now (JObj api) None True =
           success_result now (map (the_match rt) (filter is_live evs))
       \<and> (0 < l \<longrightarrow>
            process_matches_data rt now (JObj api) (Some l) live_only =
              success_result now
                (take (nat l) (map (the_match rt) (if live_only then filter is_live evs else evs))))
       \<and> (limit = None \<or> limit = Some 0 \<longrightarrow>
            process_matches_data rt now (JObj api) limit live_only =
              success_result now
                (map (the_match rt) (if live_only then filter is_live evs else evs)))"
  using process_matches_wf [OF assms, of now None True]
        process_matches_wf [OF assms, of now "Some l" live_only]
        process_matches_wf [OF assms, of now limit live_only]
  by (auto simp: limit_take_def qualifying_def)

theorem process_matches_filter_and_limit_witness:
  "process_matches_data example_runtime ''t''
      (JObj (example_listing [example_event 1 False, example_event 2 True, example_event 3 False,
         example_event 4 True, example_event 5 False])) (Some 10) True =
     success_result ''t''
       [the_match example_runtime (example_event 2 True),
        the_match example_runtime (example_event 4 True)]
   \<and> process_matches_data example_runtime ''t''
      (JObj (example_listing (map (\<lambda>i. example_event i False) [1, 2, 3, 4, 5, 6, 7, 8, 9, 10])))
      (Some 3) False =
     success_result ''t''
       [the_match example_runtime (example_event 1 False),
        the_match example_runtime (example_event 2 False),
        the_match example_runtime (example_event 3 False)]
   \<and> process_matches_data example_runtime ''t''
      (JObj (example_listing [example_event 1 False, example_event 2 True, example_event 3 False,
         example_event 4 True, example_event 5 False])) (Some 0) True =
     success_result ''t''
       [the_match example_runtime (example_event 2 True),
        the_match example_runtime (example_event 4 True)]"
proof -
  let ?five = "[example_event 1 False, example_event 2 True, example_event 3 False,
         example_event 4 True, example_event 5 False]"
  let ?ten = "map (\<lambda>i. example_event i False) [1, 2, 3, 4, 5, 6, 7, 8, 9, 10]"
  have ok: "py_truthy (dget (example_listing evs) ''isSuccess'' JNull)" for evs
    by (simp add: example_listing_def dget_def)
  have d: "map_of (example_listing evs) ''data'' = Some (JObj [(''events'', JList evs)])" for evs
    by (simp add: example_listing_def)
  have ev: "py_get (JObj [(''events'', JList evs)]) ''events'' (JList []) = Inr (JList evs)" for evs
    by (simp add: dget_def)
  have wf5: "\<forall>e\<in>set ?five. \<exists>m. match_data example_runtime e = Inr m"
    by (simp add: example_event_ok)
  have wf10: "\<forall>e\<in>set ?ten. \<exists>m. match_data example_runtime e = Inr m"
    by (simp add: example_event_ok)
  have a: "process_matches_data example_runtime ''t'' (JObj (example_listing ?five)) (Some 10) True =
     success_result ''t'' [the_match example_runtime (example_event 2 True),
        the_match example_runtime (example_event 4 True)]"
    using process_matches_filter_and_limit [OF ok d ev wf5, of "''t''" 10 True None] by simp
  have b: "process_matches_data example_runtime ''t'' (JObj (example_listing ?ten)) (Some 3) False =
     success_result ''t'' [the_match example_runtime (example_event 1 False),
        the_match example_runtime (example_event 2 False),
        the_match example_runtime (example_event 3 False)]"
    using process_matches_filter_and_limit [OF ok d ev wf10, of "''t''" 3 False None] by simp
  have c: "process_matches_data example_runtime ''t'' (JObj (example_listing ?five)) (Some 0) True =
     success_result ''t'' [the_match example_runtime (example_event 2 True),
        the_match example_runtime (example_event 4 True)]"
    using process_matches_filter_and_limit [OF ok d ev wf5, of "''t''" 1 True "Some 0"] by simp
  show ?thesis by (intro conjI) (fact a, fact b, fact c)
qed

text \<open>
  C10. A limit of 0 truncates nothing: on every input the pipeline returns with limit 0
  what it returns with no limit, and on a well-formed listing that is the record of every
  qualifying event, not the empty list.
\<close>

theorem process_matches_limit_zero:
  "process_matches_data rt now api_data (Some 0) live_only =
     process_matches_data rt now api_data None live_only
   \<and> (py_truthy (dget api ''isSuccess'' JNull) \<and> map_of api ''data'' = Some d
        \<and> py_get d ''events'' (JList []) = Inr (JList evs)
        \<and> (\<forall>e\<in>set evs. \<exists>m. match_data rt e = Inr m) \<longrightarrow>
      process_matches_data rt now (JObj api) (Some 0) live_only =
        success_result now (map (the_match rt) (if live_only then filter is_live evs else evs)))"
proof (intro conjI impI)
  show "process_matches_data rt now api_data (Some 0) live_only =
     process_matches_data rt now api_data None live_only"
    by (simp add: process_matches_data_def matches_body_def matches_loop_zero cong: if_cong)
next
  assume "py_truthy (dget api ''isSuccess'' JNull) \<and> map_of api ''data'' = Some d
        \<and> py_get d ''events'' (JList []) = Inr (JList evs)
        \<and> (\<forall>e\<in>set evs. \<exists>m. match_data rt e = Inr m)"
  then show "process_matches_data rt now (JObj api) (Some 0) live_only =
        success_result now (map (the_match rt) (if live_only then filter is_live evs else evs))"
    using process_matches_wf [of api d evs rt now "Some 0" live_only]
    by (simp add: limit_take_def qualifying_def)
qed

theorem process_matches_limit_zero_witness:
  "process_matches_data example_runtime ''t''
      (JObj (example_listing [example_event 1 False, example_event 2 True, example_event 3 False]))
      (Some 0) False =
     success_result ''t''
       [the_match example_runtime (example_event 1 False),
        the_match example_runtime (example_event 2 True),
        the_match example_runtime (example_event 3 False)]"
proof -
  let ?three = "[example_event 1 False, example_event 2 True, example_event 3 False]"
  have "py_truthy (dget (example_listing ?three) ''isSuccess'' JNull)
        \<and> map_of (example_listing ?three) ''data'' = Some (JObj [(''events'', JList ?three)])
        \<and> py_get (JObj [(''events'', JList ?three)]) ''events'' (JList []) = Inr (JList ?three)
        \<and> (\<forall>e\<in>set ?three. \<exists>m. match_data example_runtime e = Inr m)"
    by (simp add: example_listing_def dget_def example_event_ok)
  with process_matches_limit_zero [of example_runtime "''t''" JNull False "example_listing ?three"
      "JObj [(''events'', JList ?three)]" ?three]
  show ?thesis by simp
qed

lemma the_match_example:
  "the_match example_runtime (example_event i live) =
     JObj [(''event_id'', JInt i), (''teams'', JStr '' vs ''), (''home_team'', JStr []),
           (''away_team'', JStr []), (''time'', JStr []), (''is_live'', JBool live),
           (''status'', JStr []), (''sport_id'', JStr []), (''main_odds'', JObj [])]"
  by (simp add: the_match_def match_data_def example_event_def py_dict_def dget_def
      extract_main_odds_def)

lemma process_matches_negative_limit:
  assumes "py_truthy (dget api ''isSuccess'' JNull)"
      and "map_of api ''data'' = Some d"
      and "py_get d ''events'' (JList []) = Inr (JList evs)"
      and "\<forall>e\<in>set evs. \<exists>m. match_data rt e = Inr m"
      and "l < 0"
  shows "process_matches_data rt now (JObj api) (Some l) live_only =
           success_result now
             (take 1 (map (the_match rt) (if live_only then filter is_live evs else evs)))"
  using process_matches_wf [OF assms(1-4), of now "Some l" live_only] assms(5)
  by (simp add: limit_take_def qualifying_def)

section \<open>The client: cache and pacing\<close>

lemma cache_sleep [simp]: "cache (sleep d c) = cache c"
  by (simp add: sleep_def)

lemma clock_sleep [simp]: "clock (sleep d c) = clock c + d"
  by (simp add: sleep_def)

lemma last_sleep [simp]: "last_request_time (sleep d c) = last_request_time c"
  by (simp add: sleep_def)

lemma cache_apply_rate_limit [simp]: "cache (apply_rate_limit c) = cache c"
  by (simp add: apply_rate_limit_def Let_def)

lemma cache_enhanced_rate_limit [simp]: "cache (enhanced_rate_limit c) = cache c"
  by (simp add: enhanced_rate_limit_def Let_def)

lemma last_apply_rate_limit [simp]:
  "last_request_time (apply_rate_limit c) = clock (apply_rate_limit c)"
  by (simp add: apply_rate_limit_def Let_def)

lemma last_enhanced_rate_limit [simp]:
  "last_request_time (enhanced_rate_limit c) = last_request_time c"
  by (simp add: enhanced_rate_limit_def Let_def)

lemma dom_cache_put: "dom (cache (cache_put c k v)) = insert k (dom (cache c))"
  by (simp add: cache_put_def)

lemma cache_put_other [simp]:
  "last_request_time (cache_put c k v) = last_request_time c"
  "clock (cache_put c k v) = clock c"
  by (simp_all add: cache_put_def)

lemma event_fetch_body_cache:
  assumes "event_fetch_body process c k event_id use_cache body = Inr (r, c')"
  shows "dom (cache c) \<subseteq> dom (cache c') \<and> last_request_time c' = last_request_time c
         \<and> clock c' = clock c"
proof -
  from assms obtain kvs where b: "body = JObj kvs"
    by (cases body) (simp_all add: event_fetch_body_def)
  from assms b have "c' = c \<or> (\<exists>v. c' = cache_put c k v)"
    by (auto simp: event_fetch_body_def Let_def split: if_splits option.splits)
  then show ?thesis
    by (elim disjE exE) (simp_all add: dom_cache_put subset_insertI)
qed

lemma get_matches_dom: "dom (cache c) \<subseteq> dom (cache (snd (get_matches rt c limit live_only w)))"
  by (auto simp: get_matches_def Let_def dom_cache_put split: option.splits http_result.splits)

lemma event_fetch_result_dom:
  "dom (cache c4) \<subseteq> dom (cache (snd (case event_fetch_body p c4 k event_id use_cache b of
          Inl e \<Rightarrow> (network_error rt event_id e, c4) | Inr r \<Rightarrow> r)))"
proof (cases "event_fetch_body p c4 k event_id use_cache b")
  case (Inl e)
  then show ?thesis by simp
next
  case (Inr r)
  then have "event_fetch_body p c4 k event_id use_cache b = Inr (fst r, snd r)" by simp
  from event_fetch_body_cache [OF this] Inr show ?thesis by simp
qed

lemma get_event_details_dom:
  "dom (cache c) \<subseteq> dom (cache (snd (get_event_details rt c event_id use_cache w)))"
proof -
  let ?c3 = "sleep (latency w) (sleep (human_delay w) (enhanced_rate_limit c))"
  let ?c4 = "?c3\<lparr>last_request_time := clock ?c3\<rparr>"
  have c4: "dom (cache ?c4) = dom (cache c)" by simp
  show ?thesis
    unfolding get_event_details_def Let_def
    using event_fetch_result_dom [of ?c4, unfolded c4]
    by (simp split: option.splits http_result.splits)
qed

lemma get_event_statistics_dom:
  "dom (cache c) \<subseteq> dom (cache (snd (get_event_statistics rt c event_id use_cache w)))"
proof -
  let ?c3 = "sleep (latency w) (sleep (human_delay w) (enhanced_rate_limit c))"
  let ?c4 = "?c3\<lparr>last_request_time := clock ?c3\<rparr>"
  have c4: "dom (cache ?c4) = dom (cache c)" by simp
  show ?thesis
    unfolding get_event_statistics_def Let_def
    using event_fetch_result_dom [of ?c4, unfolded c4]
    by (simp split: option.splits http_result.splits)
qed

lemma matches_cache_key_example: "matches_cache_key None False = ''matches_None_False''"
  by (simp add: matches_cache_key_def)

lemma cache_get_put: "cache_get (sleep d (cache_put c k v)) k ttl = (if d < ttl then Some v else None)"
  by (simp add: cache_get_def cache_put_def sleep_def)

lemma get_matches_hit:
  "cache_get c (matches_cache_key limit live_only) (cache_duration c) = Some v \<Longrightarrow>
   get_matches rt c limit live_only w = (v, c)"
  by (simp add: get_matches_def)

lemma get_matches_store:
  assumes "cache_get c (matches_cache_key limit live_only) (cache_duration c) = None"
      and "response w = Response 200 reason (Some body)"
  shows "\<exists>c3. clock c3 = clock (apply_rate_limit c) + human_delay w + latency w
           \<and> cache_duration c3 = cache_duration c
           \<and> get_matches rt c limit live_only w =
               (process_matches_data rt (isoformat rt (clock c3)) body limit live_only,
                cache_put c3 (matches_cache_key limit live_only)
                  (process_matches_data rt (isoformat rt (clock c3)) body limit live_only))"
proof -
  let ?c3 = "sleep (latency w) (sleep (human_delay w) (apply_rate_limit c))"
  have "cache_duration ?c3 = cache_duration c"
    by (simp add: sleep_def apply_rate_limit_def Let_def)
  moreover have "clock ?c3 = clock (apply_rate_limit c) + human_delay w + latency w" by simp
  moreover have "get_matches rt c limit live_only w =
               (process_matches_data rt (isoformat rt (clock ?c3)) body limit live_only,
                cache_put ?c3 (matches_cache_key limit live_only)
                  (process_matches_data rt (isoformat rt (clock ?c3)) body limit live_only))"
    using assms by (simp add: get_matches_def Let_def)
  ultimately show ?thesis by blast
qed

text \<open>
  C6. A cache write followed at once by a read of the same key returns the payload for
  every duration \<open>T > 0\<close>, and so does a read after less than \<open>T\<close> has passed; once
  \<open>T\<close> or more has passed the read is a miss while the entry is still in the map with
  its payload and creation time. No fetch removes a key from the cache, and a matches
  fetch that stored its result is answered from the cache, unchanged, by the same fetch
  made at once.
\<close>

theorem cache_put_then_get:
  "(0 < T \<longrightarrow> cache_get (cache_put c K V) K T = Some V)
   \<and> (d < T \<longrightarrow> cache_get (sleep d (cache_put c K V)) K T = Some V)
   \<and> (T \<le> d \<longrightarrow>
        cache_get (sleep d (cache_put c K V)) K T = None
        \<and> cache (sleep d (cache_put c K V)) K = Some \<lparr>data = V, timestamp = clock c\<rparr>)
   \<and> dom (cache c) \<subseteq> dom (cache (snd (get_matches rt c limit live_only w)))
   \<and> dom (cache c) \<subseteq> dom (cache (snd (get_event_details rt c event_id use_cache w)))
   \<and> dom (cache c) \<subseteq> dom (cache (snd (get_event_statistics rt c event_id use_cache w)))
   \<and> (0 < cache_duration c
        \<and> cache_get c (matches_cache_key limit live_only) (cache_duration c) = None
        \<and> response w = Response 200 reason (Some body) \<longrightarrow>
        get_matches rt (snd (get_matches rt c limit live_only w)) limit live_only w' =
          get_matches rt c limit live_only w)"
proof (intro conjI impI)
  assume "0 < T"
  then show "cache_get (cache_put c K V) K T = Some V"
    by (simp add: cache_get_def cache_put_def)
next
  assume "d < T"
  then show "cache_get (sleep d (cache_put c K V)) K T = Some V"
    by (simp add: cache_get_put)
next
  assume "T \<le> d"
  then show "cache_get (sleep d (cache_put c K V)) K T = None"
    by (simp add: cache_get_put)
next
  show "cache (sleep d (cache_put c K V)) K = Some \<lparr>data = V, timestamp = clock c\<rparr>"
    by (simp add: cache_put_def)
next
  show "dom (cache c) \<subseteq> dom (cache (snd (get_matches rt c limit live_only w)))"
    by (rule get_matches_dom)
next
  show "dom (cache c) \<subseteq> dom (cache (snd (get_event_details rt c event_id use_cache w)))"
    by (rule get_event_details_dom)
next
  show "dom (cache c) \<subseteq> dom (cache (snd (get_event_statistics rt c event_id use_cache w)))"
    by (rule get_event_statistics_dom)
next
  assume a: "0 < cache_duration c
        \<and> cache_get c (matches_cache_key limit live_only) (cache_duration c) = None
        \<and> response w = Response 200 reason (Some body)"
  then obtain c3 where c3: "cache_duration c3 = cache_duration c"
    and g: "get_matches rt c limit live_only w =
               (process_matches_data rt (isoformat rt (clock c3)) body limit live_only,
                cache_put c3 (matches_cache_key limit live_only)
                  (process_matches_data rt (isoformat rt (clock c3)) body limit live_only))"
    using get_matches_store [of c limit live_only w reason body rt] by blast
  let ?v = "process_matches_data rt (isoformat rt (clock c3)) body limit live_only"
  let ?c' = "cache_put c3 (matches_cache_key limit live_only) ?v"
  have "cache_get ?c' (matches_cache_key limit live_only) (cache_duration ?c') = Some ?v"
    using a c3 by (simp add: cache_get_def cache_put_def)
  then have "get_matches rt ?c' limit live_only w' = (?v, ?c')" by (rule get_matches_hit)
  then show "get_matches rt (snd (get_matches rt c limit live_only w)) limit live_only w' =
          get_matches rt c limit live_only w"
    by (simp add: g)
qed

theorem cache_put_then_get_witness:
  "cache_get (cache_put example_client ''k'' (JInt 7)) ''k'' 300 = Some (JInt 7)
   \<and> cache_get (sleep 299 (cache_put example_client ''k'' (JInt 7))) ''k'' 300 = Some (JInt 7)
   \<and> cache_get (sleep 300 (cache_put example_client ''k'' (JInt 7))) ''k'' 300 = None
   \<and> cache (sleep 300 (cache_put example_client ''k'' (JInt 7))) ''k''
        = Some \<lparr>data = JInt 7, timestamp = 100\<rparr>
   \<and> get_matches example_runtime
        (snd (get_matches example_runtime example_client None False
                (example_env (Response 200 ''OK'' (Some example_ok_body)))))
        None False (example_env Transport_Error)
      = get_matches example_runtime example_client None False
          (example_env (Response 200 ''OK'' (Some example_ok_body)))"
proof -
  note T1 = cache_put_then_get [of 300 example_client "''k''" "JInt 7" 299 example_runtime None False
      "example_env (Response 200 ''OK'' (Some example_ok_body))" "[]" True "''OK''" example_ok_body
      "example_env Transport_Error"]
  note T2 = cache_put_then_get [of 300 example_client "''k''" "JInt 7" 300 example_runtime None False
      "example_env (Response 200 ''OK'' (Some example_ok_body))" "[]" True "''OK''" example_ok_body
      "example_env Transport_Error"]
  have miss: "cache_get example_client (matches_cache_key None False) (cache_duration example_client) = None"
    by (simp add: cache_get_def example_client_def)
  have dur: "0 < cache_duration example_client" by (simp add: example_client_def)
  have resp: "response (example_env (Response 200 ''OK'' (Some example_ok_body))) =
      Response 200 ''OK'' (Some example_ok_body)"
    by (simp add: example_env_def)
  have clk: "clock example_client = 100" by (simp add: example_client_def)
  from T1 have a: "cache_get (cache_put example_client ''k'' (JInt 7)) ''k'' 300 = Some (JInt 7)"
    by simp
  from T1 have b: "cache_get (sleep 299 (cache_put example_client ''k'' (JInt 7))) ''k'' 300 = Some (JInt 7)"
    by simp
  from T2 have c: "cache_get (sleep 300 (cache_put example_client ''k'' (JInt 7))) ''k'' 300 = None"
    by simp
  from T2 clk have d: "cache (sleep 300 (cache_put example_client ''k'' (JInt 7))) ''k''
        = Some \<lparr>data = JInt 7, timestamp = 100\<rparr>"
    by simp
  from T1 miss dur resp have e: "get_matches example_runtime
        (snd (get_matches example_runtime example_client None False
                (example_env (Response 200 ''OK'' (Some example_ok_body)))))
        None False (example_env Transport_Error)
      = get_matches example_runtime example_client None False
          (example_env (Response 200 ''OK'' (Some example_ok_body)))"
    by blast
  show ?thesis by (intro conjI) (fact a, fact b, fact c, fact d, fact e)
qed

lemma clock_apply_rate_limit:
  "clock (apply_rate_limit c) =
     (if clock c - last_request_time c < min_request_interval c
      then last_request_time c + min_request_interval c else clock c)"
  by (simp add: apply_rate_limit_def Let_def)

lemma clock_enhanced_rate_limit:
  "clock (enhanced_rate_limit c) =
     (if clock c - last_request_time c < min_request_interval c * 2
      then last_request_time c + min_request_interval c * 2 else clock c)"
  by (simp add: enhanced_rate_limit_def Let_def)

lemma get_matches_miss_times:
  assumes "cache_get c (matches_cache_key limit live_only) (cache_duration c) = None"
  shows "last_request_time (snd (get_matches rt c limit live_only w)) = clock (apply_rate_limit c)
       \<and> clock (snd (get_matches rt c limit live_only w)) =
           clock (apply_rate_limit c) + human_delay w + latency w"
  using assms
  by (simp add: get_matches_def Let_def split: http_result.splits option.splits)

lemma event_fetch_result_times:
  "last_request_time (snd (case event_fetch_body p c4 k event_id use_cache b of
          Inl e \<Rightarrow> (network_error rt event_id e, c4) | Inr r \<Rightarrow> r)) = last_request_time c4
   \<and> clock (snd (case event_fetch_body p c4 k event_id use_cache b of
          Inl e \<Rightarrow> (network_error rt event_id e, c4) | Inr r \<Rightarrow> r)) = clock c4"
proof (cases "event_fetch_body p c4 k event_id use_cache b")
  case (Inl e)
  then show ?thesis by simp
next
  case (Inr r)
  then have "event_fetch_body p c4 k event_id use_cache b = Inr (fst r, snd r)" by simp
  from event_fetch_body_cache [OF this] Inr show ?thesis by simp
qed

lemma get_event_details_miss_times:
  assumes "use_cache \<longrightarrow> cache_get c (''event_details_'' @ event_id) (detail_cache_duration c) = None"
  shows "clock (snd (get_event_details rt c event_id use_cache w)) =
           clock (enhanced_rate_limit c) + human_delay w + latency w
       \<and> last_request_time (snd (get_event_details rt c event_id use_cache w)) =
           (if response w = Transport_Error then last_request_time c
            else clock (enhanced_rate_limit c) + human_delay w + latency w)"
proof -
  let ?c3 = "sleep (latency w) (sleep (human_delay w) (enhanced_rate_limit c))"
  let ?c4 = "?c3\<lparr>last_request_time := clock ?c3\<rparr>"
  have miss: "(if use_cache then cache_get c (''event_details_'' @ event_id) (detail_cache_duration c)
               else None) = None"
    using assms by simp
  show ?thesis
    unfolding get_event_details_def Let_def miss
    using event_fetch_result_times [where ?c4.0 = ?c4]
    by (simp split: http_result.splits option.splits add: add.assoc)
qed

lemma get_event_statistics_miss_times:
  assumes "use_cache \<longrightarrow> cache_get c (''event_stats_'' @ event_id) (detail_cache_duration c) = None"
  shows "clock (snd (get_event_statistics rt c event_id use_cache w)) =
           clock (enhanced_rate_limit c) + human_delay w + latency w
       \<and> last_request_time (snd (get_event_statistics rt c event_id use_cache w)) =
           (if response w = Transport_Error then last_request_time c
            else clock (enhanced_rate_limit c) + human_delay w + latency w)"
proof -
  let ?c3 = "sleep (latency w) (sleep (human_delay w) (enhanced_rate_limit c))"
  let ?c4 = "?c3\<lparr>last_request_time := clock ?c3\<rparr>"
  have miss: "(if use_cache then cache_get c (''event_stats_'' @ event_id) (detail_cache_duration c)
               else None) = None"
    using assms by simp
  show ?thesis
    unfolding get_event_statistics_def Let_def miss
    using event_fetch_result_times [where ?c4.0 = ?c4]
    by (simp split: http_result.splits option.splits add: add.assoc)
qed

text \<open>
  C5. The normal-intensity fetch sets the time of last request before the randomized
  delay, not after it: on a cache miss with no wait needed, the human-like delay runs
  from 100 to 102 and the time of last request is left at 100, the reading
  \<^verbatim>\<open>_apply_rate_limit\<close> took before the delay.
\<close>

theorem get_matches_stamps_before_delay:
  "last_request_time
     (snd (get_matches example_runtime example_client None False
             (example_env (Response 200 ''OK'' (Some example_ok_body))))) = 100
   \<and> clock (apply_rate_limit example_client)
       + human_delay (example_env (Response 200 ''OK'' (Some example_ok_body))) = 102"
proof -
  have miss: "cache_get example_client (matches_cache_key None False) (cache_duration example_client) = None"
    by (simp add: cache_get_def example_client_def)
  have clk: "clock (apply_rate_limit example_client) = 100"
    by (simp add: clock_apply_rate_limit example_client_def)
  show ?thesis
    using get_matches_miss_times [OF miss, of example_runtime
        "example_env (Response 200 ''OK'' (Some example_ok_body))"]
    by (simp add: clk example_env_def)
qed

text \<open>
  When each fetch stamps the time of last request, on a cache miss: the detail and
  statistics fetches after the wait, the randomized delay and the request, whenever the
  request returns a response; the matches fetch when the minimum-interval wait ends.
\<close>

lemma last_request_time_updates:
  "((use_cache \<longrightarrow>
       cache_get c (''event_details_'' @ event_id) (detail_cache_duration c) = None)
     \<and> response w \<noteq> Transport_Error \<longrightarrow>
       last_request_time (snd (get_event_details rt c event_id use_cache w)) =
         clock (enhanced_rate_limit c) + human_delay w + latency w
       \<and> clock (snd (get_event_details rt c event_id use_cache w)) =
         clock (enhanced_rate_limit c) + human_delay w + latency w)
   \<and> ((use_cache \<longrightarrow>
       cache_get c (''event_stats_'' @ event_id) (detail_cache_duration c) = None)
     \<and> response w \<noteq> Transport_Error \<longrightarrow>
       last_request_time (snd (get_event_statistics rt c event_id use_cache w)) =
         clock (enhanced_rate_limit c) + human_delay w + latency w
       \<and> clock (snd (get_event_statistics rt c event_id use_cache w)) =
         clock (enhanced_rate_limit c) + human_delay w + latency w)
   \<and> (cache_get c (matches_cache_key limit live_only) (cache_duration c) = None \<longrightarrow>
       last_request_time (snd (get_matches rt c limit live_only w)) = clock (apply_rate_limit c)
       \<and> clock (snd (get_matches rt c limit live_only w)) =
         clock (apply_rate_limit c) + human_delay w + latency w)"
proof (intro conjI impI)
  assume a: "(use_cache \<longrightarrow>
       cache_get c (''event_details_'' @ event_id) (detail_cache_duration c) = None)
     \<and> response w \<noteq> Transport_Error"
  then have m: "use_cache \<longrightarrow>
       cache_get c (''event_details_'' @ event_id) (detail_cache_duration c) = None" by simp
  from get_event_details_miss_times [OF m, of rt w] a
  show "last_request_time (snd (get_event_details rt c event_id use_cache w)) =
         clock (enhanced_rate_limit c) + human_delay w + latency w"
    and "clock (snd (get_event_details rt c event_id use_cache w)) =
         clock (enhanced_rate_limit c) + human_delay w + latency w"
    by simp_all
next
  assume a: "(use_cache \<longrightarrow>
       cache_get c (''event_stats_'' @ event_id) (detail_cache_duration c) = None)
     \<and> response w \<noteq> Transport_Error"
  then have m: "use_cache \<longrightarrow>
       cache_get c (''event_stats_'' @ event_id) (detail_cache_duration c) = None" by simp
  from get_event_statistics_miss_times [OF m, of rt w] a
  show "last_request_time (snd (get_event_statistics rt c event_id use_cache w)) =
         clock (enhanced_rate_limit c) + human_delay w + latency w"
    and "clock (snd (get_event_statistics rt c event_id use_cache w)) =
         clock (enhanced_rate_limit c) + human_delay w + latency w"
    by simp_all
next
  assume m: "cache_get c (matches_cache_key limit live_only) (cache_duration c) = None"
  from get_matches_miss_times [OF m, of rt w]
  show "last_request_time (snd (get_matches rt c limit live_only w)) = clock (apply_rate_limit c)"
    and "clock (snd (get_matches rt c limit live_only w)) =
         clock (apply_rate_limit c) + human_delay w + latency w"
    by simp_all
qed

lemma last_request_time_updates_example:
  "last_request_time
     (snd (get_event_details example_runtime example_client ''7'' True
             (example_env (Response 200 ''OK'' (Some example_failed_body))))) = 205 / 2
   \<and> last_request_time
     (snd (get_event_statistics example_runtime example_client ''7'' True
             (example_env (Response 200 ''OK'' (Some example_failed_body))))) = 205 / 2
   \<and> last_request_time
     (snd (get_matches example_runtime example_client None False
             (example_env (Response 200 ''OK'' (Some example_failed_body))))) = 100
   \<and> clock
     (snd (get_matches example_runtime example_client None False
             (example_env (Response 200 ''OK'' (Some example_failed_body))))) = 205 / 2"
proof -
  let ?w = "example_env (Response 200 ''OK'' (Some example_failed_body))"
  have miss: "cache_get example_client k t = None" for k t
    by (simp add: cache_get_def example_client_def)
  have resp: "response ?w \<noteq> Transport_Error" by (simp add: example_env_def)
  have e: "clock (enhanced_rate_limit example_client) + human_delay ?w + latency ?w = 205 / 2"
    by (simp add: clock_enhanced_rate_limit example_client_def example_env_def)
  have r: "clock (apply_rate_limit example_client) = 100"
    by (simp add: clock_apply_rate_limit example_client_def)
  have n: "clock (apply_rate_limit example_client) + human_delay ?w + latency ?w = 205 / 2"
    by (simp add: clock_apply_rate_limit example_client_def example_env_def)
  note T = last_request_time_updates [of True example_client "''7''" ?w example_runtime None False]
  from T have "last_request_time
     (snd (get_event_details example_runtime example_client ''7'' True ?w)) =
      clock (enhanced_rate_limit example_client) + human_delay ?w + latency ?w"
    by (simp add: miss resp)
  then have a: "last_request_time
     (snd (get_event_details example_runtime example_client ''7'' True ?w)) = 205 / 2"
    by (simp only: e)
  from T have "last_request_time
     (snd (get_event_statistics example_runtime example_client ''7'' True ?w)) =
      clock (enhanced_rate_limit example_client) + human_delay ?w + latency ?w"
    by (simp add: miss resp)
  then have b: "last_request_time
     (snd (get_event_statistics example_runtime example_client ''7'' True ?w)) = 205 / 2"
    by (simp only: e)
  from T have "last_request_time
     (snd (get_matches example_runtime example_client None False ?w)) =
      clock (apply_rate_limit example_client)"
    by (simp add: miss resp)
  then have c: "last_request_time
     (snd (get_matches example_runtime example_client None False ?w)) = 100"
    by (simp only: r)
  from T have "clock
     (snd (get_matches example_runtime example_client None False ?w)) =
      clock (apply_rate_limit example_client) + human_delay ?w + latency ?w"
    by (simp add: miss resp)
  then have d: "clock
     (snd (get_matches example_runtime example_client None False ?w)) = 205 / 2"
    by (simp only: n)
  show ?thesis by (intro conjI) (fact a, fact b, fact c, fact d)
qed

text \<open>
  A consequence for the spacing of requests: with a minimum interval of 2, two matches
  fetches made back to back issue their requests at 103 and 104.6.
\<close>

lemma get_matches_transport_error:
  assumes "cache_get c (matches_cache_key limit live_only) (cache_duration c) = None"
      and "response w = Transport_Error"
  shows "snd (get_matches rt c limit live_only w) =
           sleep (latency w) (sleep (human_delay w) (apply_rate_limit c))"
  using assms by (simp add: get_matches_def Let_def)

lemma get_matches_spacing_below_minimum:
  "min_request_interval example_client = 2
   \<and> clock (snd (get_matches example_runtime example_client None False (example_delay 3))) = 103
   \<and> clock (snd (get_matches example_runtime
        (snd (get_matches example_runtime example_client None False (example_delay 3)))
        None False (example_delay (8 / 5)))) = 523 / 5"
proof -
  let ?c1 = "snd (get_matches example_runtime example_client None False (example_delay 3))"
  have miss: "cache_get example_client k t = None" for k t
    by (simp add: cache_get_def example_client_def)
  have resp: "response (example_delay x) = Transport_Error" for x
    by (simp add: example_delay_def)
  have c1: "?c1 = \<lparr>cache = Map.empty, last_request_time = 100, min_request_interval = 2,
      cache_duration = 300, detail_cache_duration = 600, clock = 103\<rparr>"
    unfolding get_matches_transport_error [OF miss resp]
    by (simp add: sleep_def apply_rate_limit_def Let_def example_client_def example_delay_def)
  have miss1: "cache_get ?c1 k t = None" for k t
    unfolding c1 by (simp add: cache_get_def)
  have "clock (snd (get_matches example_runtime ?c1 None False (example_delay (8 / 5)))) = 523 / 5"
    unfolding get_matches_transport_error [OF miss1 resp]
    unfolding c1
    by (simp add: sleep_def apply_rate_limit_def Let_def example_delay_def)
  moreover have "clock ?c1 = 103" unfolding c1 by simp
  ultimately show ?thesis by (simp add: example_client_def)
qed

text \<open>
  C1. The matches fetch stores a failure result: on an empty cache, an HTTP-200 body whose
  success flag is false is normalized to the failure result
  \<^verbatim>\<open>Invalid API response format\<close>, and that result is written to the cache under the
  call's key.
\<close>

theorem get_matches_caches_failure:
  "fst (get_matches example_runtime example_client None False
          (example_env (Response 200 ''OK'' (Some example_failed_body))))
     = JObj [(''success'', JBool False), (''error'', JStr ''Invalid API response format''),
             (''timestamp'', JStr [])]
   \<and> cache example_client ''matches_None_False'' = None
   \<and> cache (snd (get_matches example_runtime example_client None False
          (example_env (Response 200 ''OK'' (Some example_failed_body))))) ''matches_None_False''
     = Some \<lparr>data = JObj [(''success'', JBool False),
                            (''error'', JStr ''Invalid API response format''),
                            (''timestamp'', JStr [])],
             timestamp = 205 / 2\<rparr>"
proof -
  have p: "process_matches_data example_runtime now example_failed_body None False =
      JObj [(''success'', JBool False), (''error'', JStr ''Invalid API response format''),
             (''timestamp'', JStr now)]" for now
    by (simp add: process_matches_data_def matches_body_def example_failed_body_def dget_def)
  have miss: "cache_get example_client k t = None" for k t
    by (simp add: cache_get_def example_client_def)
  have iso: "isoformat example_runtime t = []" for t
    by (simp add: example_runtime_def)
  have clk: "clock (sleep (latency w) (sleep (human_delay w) (apply_rate_limit example_client))) = 205 / 2"
    if "w = example_env r" for w r
    using that by (simp add: clock_apply_rate_limit example_client_def example_env_def)
  have g: "get_matches example_runtime example_client None False
          (example_env (Response 200 ''OK'' (Some example_failed_body))) =
        (JObj [(''success'', JBool False), (''error'', JStr ''Invalid API response format''),
             (''timestamp'', JStr [])],
         cache_put (sleep (latency (example_env (Response 200 ''OK'' (Some example_failed_body))))
            (sleep (human_delay (example_env (Response 200 ''OK'' (Some example_failed_body))))
               (apply_rate_limit example_client)))
           ''matches_None_False''
           (JObj [(''success'', JBool False), (''error'', JStr ''Invalid API response format''),
             (''timestamp'', JStr [])]))"
    unfolding get_matches_def Let_def matches_cache_key_example miss
    by (simp add: example_env_def p iso)
  show ?thesis
    unfolding g using clk [OF refl]
    by (simp add: cache_put_def example_client_def)
qed

section \<open>The pipelines and the clock\<close>

lemma matches_body_clock:
  "map_sum id drop_timestamp (matches_body rt n1 x limit live_only) =
   map_sum id drop_timestamp (matches_body rt n2 x limit live_only)"
  by (auto simp: matches_body_def ebind_def split: sum.splits)

lemma process_matches_clock:
  "drop_timestamp (process_matches_data rt n1 x limit live_only) =
   drop_timestamp (process_matches_data rt n2 x limit live_only)"
  using matches_body_clock [of rt n1 x limit live_only n2]
  by (cases "matches_body rt n1 x limit live_only"; cases "matches_body rt n2 x limit live_only")
     (simp_all add: process_matches_data_def)

lemma detailed_body_clock:
  "map_sum id drop_timestamp (detailed_body rt n1 x event_id) =
   map_sum id drop_timestamp (detailed_body rt n2 x event_id)"
  by (auto simp: detailed_body_def ebind_def split: sum.splits)

lemma process_detailed_clock:
  "drop_timestamp (process_detailed_event rt n1 x event_id) =
   drop_timestamp (process_detailed_event rt n2 x event_id)"
  using detailed_body_clock [of rt n1 x event_id n2]
  by (cases "detailed_body rt n1 x event_id"; cases "detailed_body rt n2 x event_id")
     (simp_all add: process_detailed_event_def)

lemma assign_delete:
  "field \<noteq> k \<Longrightarrow> map_sum id (AList.delete k) (assign field m r) = assign field m (AList.delete k r)"
  by (cases m) (simp_all add: assign_def AList.delete_update)

lemma section_get_commutes:
  "field \<noteq> k \<Longrightarrow> commutes_with_delete k (section_get key field build)"
  unfolding commutes_with_delete_def section_get_def
  by (auto simp: ebind_def assign_delete split: sum.splits)

lemma section_in_commutes:
  "field \<noteq> k \<Longrightarrow> commutes_with_delete k (section_in key field cond build)"
  unfolding commutes_with_delete_def section_in_def
  by (auto simp: ebind_def assign_delete split: sum.splits)

lemma run_steps_commutes:
  "\<forall>s\<in>set steps. commutes_with_delete k s \<Longrightarrow>
   map_sum id (AList.delete k) (run_steps steps x r) = run_steps steps x (AList.delete k r)"
proof (induction steps arbitrary: r)
  case Nil
  show ?case by simp
next
  case (Cons s steps)
  then have s: "map_sum id (AList.delete k) (s x r) = s x (AList.delete k r)"
    by (simp add: commutes_with_delete_def)
  show ?case
  proof (cases "s x r")
    case (Inl e)
    with s show ?thesis by (cases "s x (AList.delete k r)") simp_all
  next
    case (Inr r')
    with s have "s x (AList.delete k r) = Inr (AList.delete k r')" by simp
    with Inr Cons show ?thesis by simp
  qed
qed

lemma statistics_steps_commute:
  "\<forall>s\<in>set (statistics_steps rt). commutes_with_delete ''timestamp'' s"
  by (simp add: statistics_steps_def section_get_commutes section_in_commutes)

lemma process_statistics_clock:
  "drop_timestamp (process_event_statistics rt n1 x event_id) =
   drop_timestamp (process_event_statistics rt n2 x event_id)"
proof -
  have init: "AList.delete ''timestamp'' (initial_statistics n1 event_id) =
      AList.delete ''timestamp'' (initial_statistics n2 event_id)"
    by (simp add: initial_statistics_def)
  have "map_sum id (AList.delete ''timestamp'')
          (run_steps (statistics_steps rt) x (initial_statistics n1 event_id)) =
        map_sum id (AList.delete ''timestamp'')
          (run_steps (statistics_steps rt) x (initial_statistics n2 event_id))"
    by (simp only: run_steps_commutes [OF statistics_steps_commute] init)
  then show ?thesis
    by (cases "run_steps (statistics_steps rt) x (initial_statistics n1 event_id)";
        cases "run_steps (statistics_steps rt) x (initial_statistics n2 event_id)")
       (simp_all add: process_event_statistics_def)
qed

lemma process_matches_timestamp:
  "py_get (process_matches_data rt now x limit live_only) ''timestamp'' JNull = Inr (JStr now)"
  by (auto simp: process_matches_data_def matches_body_def ebind_def dget_def split: sum.splits)

text \<open>
  C2 as stated fails: each pipeline writes \<^verbatim>\<open>datetime.now().isoformat()\<close> into its
  success result, so two calls on the same raw input at different clock readings return
  different results.
\<close>

theorem pipelines_differ_with_clock:
  "process_matches_data example_runtime ''10:00:00'' example_ok_body None False \<noteq>
     process_matches_data example_runtime ''10:00:01'' example_ok_body None False
   \<and> process_detailed_event example_runtime ''10:00:00'' (JObj []) ''7'' \<noteq>
     process_detailed_event example_runtime ''10:00:01'' (JObj []) ''7''
   \<and> process_event_statistics example_runtime ''10:00:00'' (JObj []) ''7'' \<noteq>
     process_event_statistics example_runtime ''10:00:01'' (JObj []) ''7''"
proof (intro conjI)
  have "process_matches_data example_runtime now example_ok_body None False =
      JObj [(''success'', JBool True), (''total_matches'', JInt 0), (''timestamp'', JStr now),
            (''matches'', JList []), (''cached'', JBool False)]" for now
    by (simp add: process_matches_data_def matches_body_def example_ok_body_def dget_def)
  then show "process_matches_data example_runtime ''10:00:00'' example_ok_body None False \<noteq>
     process_matches_data example_runtime ''10:00:01'' example_ok_body None False"
    by simp
next
  have "process_detailed_event example_runtime now (JObj []) ''7'' =
      JObj [(''success'', JBool True), (''event_id'', JStr ''7''), (''timestamp'', JStr now),
            (''event_info'',
               JObj [(''name'', JStr '' vs ''), (''home_team'', JStr []), (''away_team'', JStr []),
                     (''start_time'', JStr []), (''status'', JStr []), (''is_live'', JBool False),
                     (''sport_id'', JStr []), (''event_id'', JStr []),
                     (''match_bet_count'', JInt 0)]),
            (''markets_count'', JInt 0), (''betting_markets'', JList [])]" for now
    by (simp add: process_detailed_event_def detailed_body_def py_dict_def dget_def)
  then show "process_detailed_event example_runtime ''10:00:00'' (JObj []) ''7'' \<noteq>
     process_detailed_event example_runtime ''10:00:01'' (JObj []) ''7''"
    by simp
next
  have "process_event_statistics example_runtime now (JObj []) ''7'' =
      JObj (initial_statistics now ''7'')" for now
    by (simp add: process_event_statistics_def statistics_steps_def section_get_def
        section_in_def dget_def)
  then show "process_event_statistics example_runtime ''10:00:00'' (JObj []) ''7'' \<noteq>
     process_event_statistics example_runtime ''10:00:01'' (JObj []) ''7''"
    by (simp add: initial_statistics_def)
qed

text \<open>
  C2, amended. Each of the three pipelines is a function of its raw input and of the clock
  reading, and the clock reaches the result only through the top-level \<^verbatim>\<open>timestamp\<close>
  field: two calls on the same input agree on everything but that field, whatever the
  clock readings, and the matches pipeline's \<^verbatim>\<open>timestamp\<close> is the clock reading itself.
\<close>

theorem pipelines_clock_only_in_timestamp:
  "drop_timestamp (process_matches_data rt now x limit live_only) =
     drop_timestamp (process_matches_data rt now' x limit live_only)
   \<and> drop_timestamp (process_detailed_event rt now x event_id) =
     drop_timestamp (process_detailed_event rt now' x event_id)
   \<and> drop_timestamp (process_event_statistics rt now x event_id) =
     drop_timestamp (process_event_statistics rt now' x event_id)
   \<and> py_get (process_matches_data rt now x limit live_only) ''timestamp'' JNull = Inr (JStr now)"
  by (intro conjI process_matches_clock process_detailed_clock process_statistics_clock
      process_matches_timestamp)

section \<open>The statistics pipeline\<close>

lemma section_get_effect_eq:
  "section_get k field build x r = apply_effect field (section_get_effect k build x) r"
  by (auto simp: section_get_def section_get_effect_def apply_effect_def assign_def ebind_def
      split: sum.splits)

lemma section_in_effect_eq:
  "section_in k field cond build x r = apply_effect field (section_in_effect k cond build x) r"
  by (auto simp: section_in_def section_in_effect_def apply_effect_def assign_def ebind_def
      split: sum.splits)

lemma step_plan_Cons:
  assumes "\<And>r. s x r = apply_effect f (e x) r"
      and "\<And>r. run_steps steps x r = run_plan plan x r"
  shows "run_steps (s # steps) x r = run_plan ((k, f, e) # plan) x r"
  by (simp add: assms split: sum.splits)

lemma run_steps_plan:
  "run_steps (statistics_steps rt) x r = run_plan (statistics_plan rt) x r"
  unfolding statistics_steps_def statistics_plan_def
  by (intro step_plan_Cons section_get_effect_eq section_in_effect_eq) simp

lemma plan_keys: "map (\<lambda>(k, f, e). (k, f)) (statistics_plan rt) = section_keys"
  by (simp add: statistics_plan_def section_keys_def)

lemma apply_effect_cases:
  assumes "apply_effect f m r = Inr r'"
  obtains (none) "m = Inr None" "r' = r"
        | (some) v where "m = Inr (Some v)" "r' = AList.update f v r"
  using assms by (auto simp: apply_effect_def split: sum.splits option.splits)

lemma run_plan_unassigned:
  assumes "\<forall>(k, f', e)\<in>set plan. f' = f \<longrightarrow> e x = Inr None"
      and "run_plan plan x r = Inr r'"
  shows "map_of r' f = map_of r f"
  using assms
proof (induction plan arbitrary: r)
  case Nil
  then show ?case by simp
next
  case (Cons p plan)
  obtain k f' e where p: "p = (k, f', e)" by (cases p)
  from Cons.prems(2) p obtain r1 where r1: "apply_effect f' (e x) r = Inr r1"
    and rest: "run_plan plan x r1 = Inr r'"
    by (cases "apply_effect f' (e x) r") simp_all
  from Cons.prems(1) have tl: "\<forall>(k, f', e)\<in>set plan. f' = f \<longrightarrow> e x = Inr None" by simp
  from Cons.prems(1) p have hd: "f' = f \<longrightarrow> e x = Inr None" by simp
  from r1 have "map_of r1 f = map_of r f"
  proof (cases rule: apply_effect_cases)
    case none
    then show ?thesis by simp
  next
    case (some v)
    with hd have "f' \<noteq> f" by auto
    with some show ?thesis by (simp add: AList.update_conv')
  qed
  with Cons.IH [OF tl rest] show ?case by simp
qed

lemma run_plan_delete:
  assumes "\<forall>(k', f', e)\<in>set plan. (k' \<noteq> k \<longrightarrow> e x' = e x) \<and> (k' = k \<longrightarrow> e x' = Inr None \<and> f' \<in> F)"
      and "run_plan plan x r = Inr r1"
      and "\<forall>f. f \<notin> F \<longrightarrow> map_of r0 f = map_of r f"
  shows "\<exists>r2. run_plan plan x' r0 = Inr r2 \<and> (\<forall>f. f \<notin> F \<longrightarrow> map_of r2 f = map_of r1 f)"
  using assms
proof (induction plan arbitrary: r r0)
  case Nil
  then show ?case by simp
next
  case (Cons p plan)
  obtain k' f' e where p: "p = (k', f', e)" by (cases p)
  from Cons.prems(2) p obtain ra where ra: "apply_effect f' (e x) r = Inr ra"
    and rest: "run_plan plan x ra = Inr r1"
    by (cases "apply_effect f' (e x) r") simp_all
  from Cons.prems(1)
  have tl: "\<forall>(k', f', e)\<in>set plan. (k' \<noteq> k \<longrightarrow> e x' = e x) \<and> (k' = k \<longrightarrow> e x' = Inr None \<and> f' \<in> F)"
    by simp
  from Cons.prems(1) p
  have hd: "k' \<noteq> k \<longrightarrow> e x' = e x" "k' = k \<longrightarrow> e x' = Inr None \<and> f' \<in> F"
    by simp_all
  have "\<exists>rb. apply_effect f' (e x') r0 = Inr rb \<and> (\<forall>f. f \<notin> F \<longrightarrow> map_of rb f = map_of ra f)"
  proof (cases "k' = k")
    case True
    with hd have e: "e x' = Inr None" and F: "f' \<in> F" by simp_all
    from ra have "\<forall>f. f \<notin> F \<longrightarrow> map_of ra f = map_of r f"
    proof (cases rule: apply_effect_cases)
      case none
      then show ?thesis by simp
    next
      case (some v)
      with F show ?thesis by (auto simp: AList.update_conv')
    qed
    with Cons.prems(3) e show ?thesis by (simp add: apply_effect_def)
  next
    case False
    with hd have e: "e x' = e x" by simp
    from ra show ?thesis
    proof (cases rule: apply_effect_cases)
      case none
      with Cons.prems(3) e show ?thesis by (simp add: apply_effect_def)
    next
      case (some v)
      with Cons.prems(3) e show ?thesis by (simp add: apply_effect_def AList.update_conv')
    qed
  qed
  then obtain rb where rb: "apply_effect f' (e x') r0 = Inr rb"
    and agree: "\<forall>f. f \<notin> F \<longrightarrow> map_of rb f = map_of ra f" by blast
  from Cons.IH [OF tl rest agree] obtain r2 where "run_plan plan x' rb = Inr r2"
    and "\<forall>f. f \<notin> F \<longrightarrow> map_of r2 f = map_of r1 f" by blast
  with rb p show ?case by simp
qed

lemma section_get_effect_dict:
  "section_get_effect k build (JObj kvs) =
     (case map_of kvs k of
        None \<Rightarrow> Inr None
      | Some y \<Rightarrow> if py_truthy y then map_sum id Some (build y) else Inr None)"
  by (simp add: section_get_effect_def dget_def split: option.splits)

lemma section_in_effect_dict:
  "section_in_effect k cond build (JObj kvs) =
     (case map_of kvs k of
        None \<Rightarrow> Inr None
      | Some y \<Rightarrow> ebind (cond y) (\<lambda>c. if c then map_sum id Some (build y) else Inr None))"
  by (simp add: section_in_effect_def split: option.splits)

lemma falsy_conds:
  "\<not> py_truthy y \<Longrightarrow> truthy_cond y = Inr False"
  "\<not> py_truthy y \<Longrightarrow> standings_cond y = Inr False"
  "\<not> py_truthy y \<Longrightarrow> referee_cond y = Inr False"
  by (simp_all add: truthy_cond_def standings_cond_def referee_cond_def)

lemma plan_effect_absent:
  assumes "(k, f, e) \<in> set (statistics_plan rt)" and "absent_or_empty kvs k"
  shows "e (JObj kvs) = Inr None"
  using assms
  by (auto simp: statistics_plan_def absent_or_empty_def section_get_effect_dict
      section_in_effect_dict falsy_conds split: option.splits)

lemma plan_effect_key:
  assumes "(k, f, e) \<in> set (statistics_plan rt)" and "map_of kvs k = map_of kvs' k"
  shows "e (JObj kvs) = e (JObj kvs')"
  using assms
  by (auto simp: statistics_plan_def section_get_effect_dict section_in_effect_dict)

lemma plan_fields:
  "(k, f, e) \<in> set (statistics_plan rt) \<Longrightarrow> (k, f) \<in> set section_keys"
  using plan_keys [of rt] by (metis (mono_tags, lifting) case_prod_conv image_eqI set_map)

lemma plan_never_assigns:
  assumes "f \<notin> snd ` set section_keys"
  shows "\<forall>(k, f', e)\<in>set (statistics_plan rt). f' = f \<longrightarrow> e x = Inr None"
proof (clarify)
  fix k e assume "(k, f, e) \<in> set (statistics_plan rt)"
  then have "(k, f) \<in> set section_keys" by (rule plan_fields)
  then have "f \<in> snd ` set section_keys" by force
  with assms show "e x = Inr None" by simp
qed

lemma succeeded_failure [simp]:
  "\<not> succeeded (JObj ((''success'', JBool False) # rest))"
  by (simp add: succeeded_def dget_def)

lemma statistics_success_iff:
  "succeeded (process_event_statistics rt now x event_id) \<longleftrightarrow>
     (\<exists>r. run_plan (statistics_plan rt) x (initial_statistics now event_id) = Inr r)"
proof (cases "run_plan (statistics_plan rt) x (initial_statistics now event_id)")
  case (Inl e)
  then show ?thesis by (simp add: process_event_statistics_def run_steps_plan)
next
  case (Inr r)
  have "''success'' \<notin> snd ` set section_keys" by (simp add: section_keys_def)
  from run_plan_unassigned [OF plan_never_assigns [OF this] Inr]
  have "map_of r ''success'' = Some (JBool True)" by (simp add: initial_statistics_def)
  with Inr show ?thesis
    by (simp add: process_event_statistics_def run_steps_plan succeeded_def dget_def)
qed

lemma statistics_result:
  "run_plan (statistics_plan rt) x (initial_statistics now event_id) = Inr r \<Longrightarrow>
   process_event_statistics rt now x event_id = JObj r"
  by (simp add: process_event_statistics_def run_steps_plan)

lemma statistics_field_absent:
  assumes "run_plan (statistics_plan rt) (JObj kvs) (initial_statistics now event_id) = Inr r"
      and "\<forall>k\<in>set (raw_keys f). absent_or_empty kvs k"
  shows "map_of r f = map_of (initial_statistics now event_id) f"
proof (rule run_plan_unassigned [OF _ assms(1)])
  show "\<forall>(k, f', e)\<in>set (statistics_plan rt). f' = f \<longrightarrow> e (JObj kvs) = Inr None"
  proof (clarify)
    fix k e assume m: "(k, f, e) \<in> set (statistics_plan rt)"
    then have "(k, f) \<in> set section_keys" by (rule plan_fields)
    then have "k \<in> set (raw_keys f)" by (force simp: raw_keys_def)
    with assms(2) have "absent_or_empty kvs k" by simp
    with m show "e (JObj kvs) = Inr None" by (rule plan_effect_absent)
  qed
qed

lemma statistics_delete_key:
  assumes "run_plan (statistics_plan rt) (JObj kvs) (initial_statistics now event_id) = Inr r1"
  shows "\<exists>r2. run_plan (statistics_plan rt) (JObj (AList.delete k kvs))
                 (initial_statistics now event_id) = Inr r2
            \<and> (\<forall>f. k \<notin> set (raw_keys f) \<longrightarrow> map_of r2 f = map_of r1 f)"
proof -
  let ?F = "{f. k \<in> set (raw_keys f)}"
  have "\<forall>(k', f', e)\<in>set (statistics_plan rt).
          (k' \<noteq> k \<longrightarrow> e (JObj (AList.delete k kvs)) = e (JObj kvs))
          \<and> (k' = k \<longrightarrow> e (JObj (AList.delete k kvs)) = Inr None \<and> f' \<in> ?F)"
  proof (clarify, intro conjI impI)
    fix k' f' e assume m: "(k', f', e) \<in> set (statistics_plan rt)"
    {
      assume "k' \<noteq> k"
      then have "map_of (AList.delete k kvs) k' = map_of kvs k'"
        by (simp add: AList.delete_conv')
      with m show "e (JObj (AList.delete k kvs)) = e (JObj kvs)" by (rule plan_effect_key)
    }
    {
      assume "k' = k"
      then have "absent_or_empty (AList.delete k kvs) k'"
        by (simp add: absent_or_empty_def AList.delete_conv')
      with m show "e (JObj (AList.delete k kvs)) = Inr None" by (rule plan_effect_absent)
    }
    {
      assume "k' = k"
      moreover from m have "(k', f') \<in> set section_keys" by (rule plan_fields)
      ultimately show "f' \<in> ?F" by (force simp: raw_keys_def)
    }
  qed
  from run_plan_delete [OF this assms, of "initial_statistics now event_id"]
  show ?thesis by simp
qed

text \<open>
  C3 as stated fails: on a payload with none of the raw keys, every sub-section the claim
  names is a field of the result, holding the empty mapping the function put there at the
  start, not an omitted field.
\<close>

theorem statistics_absent_sections_present_empty:
  "result_field (process_event_statistics example_runtime ''t'' (JObj []) ''7'')
      ''tournament_standings'' = Some (JObj [])
   \<and> result_field (process_event_statistics example_runtime ''t'' (JObj []) ''7'')
      ''head_to_head'' = Some (JObj [])
   \<and> result_field (process_event_statistics example_runtime ''t'' (JObj []) ''7'')
      ''recent_matches'' = Some (JObj [])
   \<and> result_field (process_event_statistics example_runtime ''t'' (JObj []) ''7'')
      ''betting_analysis'' = Some (JObj [])
   \<and> result_field (process_event_statistics example_runtime ''t'' (JObj []) ''7'')
      ''referee_info'' = Some (JObj [])
   \<and> result_field (process_event_statistics example_runtime ''t'' (JObj []) ''7'')
      ''team_stats'' = Some (JObj [])"
proof -
  have "process_event_statistics example_runtime ''t'' (JObj []) ''7'' =
      JObj (initial_statistics ''t'' ''7'')"
    by (simp add: process_event_statistics_def statistics_steps_def section_get_def
        section_in_def dget_def)
  then show ?thesis by (simp add: result_field_def initial_statistics_def)
qed

text \<open>
  C3, amended. For a statistics payload that is a dict: with all raw keys missing or
  falsy the pipeline returns its success result with every section empty; and whenever
  it succeeds, a section all of whose raw keys are missing or falsy is present as the
  empty mapping (so a section is populated only if one of its raw keys exists with a
  truthy value), the separate \<^verbatim>\<open>recent_form\<close> field is omitted when \<^verbatim>\<open>lastEventModel\<close>
  is missing or falsy, and removing any raw key leaves the pipeline successful and the
  fields that key does not feed unchanged.
\<close>

theorem statistics_sections_best_effort:
  "((\<forall>k\<in>set (map fst section_keys). absent_or_empty kvs k) \<longrightarrow>
       process_event_statistics rt now (JObj kvs) event_id =
         JObj (initial_statistics now event_id))
   \<and> (succeeded (process_event_statistics rt now (JObj kvs) event_id) \<longrightarrow>
       (f \<in> set [''event_info'', ''tournament_standings'', ''head_to_head'', ''recent_matches'',
                 ''betting_analysis'', ''referee_info'', ''team_stats'']
          \<and> (\<forall>k\<in>set (raw_keys f). absent_or_empty kvs k) \<longrightarrow>
          result_field (process_event_statistics rt now (JObj kvs) event_id) f = Some (JObj []))
       \<and> (absent_or_empty kvs ''lastEventModel'' \<longrightarrow>
          result_field (process_event_statistics rt now (JObj kvs) event_id) ''recent_form''
            = None)
       \<and> succeeded (process_event_statistics rt now (JObj (AList.delete k kvs)) event_id)
       \<and> (k \<notin> set (raw_keys f) \<longrightarrow>
          result_field (process_event_statistics rt now (JObj (AList.delete k kvs)) event_id) f
            = result_field (process_event_statistics rt now (JObj kvs) event_id) f))"
proof (intro conjI impI)
  assume all: "\<forall>k\<in>set (map fst section_keys). absent_or_empty kvs k"
  have "\<forall>(k, f, e)\<in>set (statistics_plan rt). e (JObj kvs) = Inr None"
  proof (clarify)
    fix k f e assume m: "(k, f, e) \<in> set (statistics_plan rt)"
    then have "(k, f) \<in> set section_keys" by (rule plan_fields)
    then have "k \<in> set (map fst section_keys)" by force
    with all have "absent_or_empty kvs k" by blast
    with m show "e (JObj kvs) = Inr None" by (rule plan_effect_absent)
  qed
  then have "run_plan plan (JObj kvs) r = Inr r"
    if "set plan \<subseteq> set (statistics_plan rt)" for plan r
    using that by (induction plan arbitrary: r) (auto simp: apply_effect_def)
  then show "process_event_statistics rt now (JObj kvs) event_id =
         JObj (initial_statistics now event_id)"
    by (simp add: process_event_statistics_def run_steps_plan)
next
  assume s: "succeeded (process_event_statistics rt now (JObj kvs) event_id)"
  then obtain r where r: "run_plan (statistics_plan rt) (JObj kvs) (initial_statistics now event_id) = Inr r"
    by (auto simp: statistics_success_iff)
  note P = statistics_result [OF r]
  {
    assume "f \<in> set [''event_info'', ''tournament_standings'', ''head_to_head'', ''recent_matches'',
                 ''betting_analysis'', ''referee_info'', ''team_stats'']
          \<and> (\<forall>k\<in>set (raw_keys f). absent_or_empty kvs k)"
    then have f: "map_of (initial_statistics now event_id) f = Some (JObj [])"
      and a: "\<forall>k\<in>set (raw_keys f). absent_or_empty kvs k"
      by (auto simp: initial_statistics_def)
    from statistics_field_absent [OF r a] f
    show "result_field (process_event_statistics rt now (JObj kvs) event_id) f = Some (JObj [])"
      by (simp add: P result_field_def)
  }
  {
    assume "absent_or_empty kvs ''lastEventModel''"
    then have "\<forall>k\<in>set (raw_keys ''recent_form''). absent_or_empty kvs k"
      by (simp add: raw_keys_def section_keys_def)
    from statistics_field_absent [OF r this]
    show "result_field (process_event_statistics rt now (JObj kvs) event_id) ''recent_form'' = None"
      by (simp add: P result_field_def initial_statistics_def)
  }
  from statistics_delete_key [OF r, of k] obtain r2 where
    r2: "run_plan (statistics_plan rt) (JObj (AList.delete k kvs))
                 (initial_statistics now event_id) = Inr r2"
    and same: "\<forall>f. k \<notin> set (raw_keys f) \<longrightarrow> map_of r2 f = map_of r f" by blast
  from r2 show "succeeded (process_event_statistics rt now (JObj (AList.delete k kvs)) event_id)"
    by (auto simp: statistics_success_iff)
  {
    assume "k \<notin> set (raw_keys f)"
    with same show "result_field (process_event_statistics rt now (JObj (AList.delete k kvs)) event_id) f
            = result_field (process_event_statistics rt now (JObj kvs) event_id) f"
      by (simp add: P statistics_result [OF r2] result_field_def)
  }
qed

theorem statistics_sections_best_effort_witness:
  "process_event_statistics example_runtime ''t'' (JObj []) ''7'' =
     JObj (initial_statistics ''t'' ''7'')
   \<and> succeeded (process_event_statistics example_runtime ''t'' (JObj example_statistics) ''7'')
   \<and> result_field (process_event_statistics example_runtime ''t'' (JObj example_statistics) ''7'')
        ''head_to_head''
      = Some (JObj [(''total_matches'', JInt 3), (''home_team_wins'', JNull),
                    (''away_team_wins'', JNull), (''draws'', JNull),
                    (''recent_matches'', JList [])])
   \<and> result_field (process_event_statistics example_runtime ''t'' (JObj example_statistics) ''7'')
        ''recent_matches'' = Some (JObj [])
   \<and> result_field (process_event_statistics example_runtime ''t'' (JObj example_statistics) ''7'')
        ''recent_form'' = None
   \<and> succeeded (process_event_statistics example_runtime ''t''
        (JObj (AList.delete ''headToHeadModel'' example_statistics)) ''7'')
   \<and> result_field (process_event_statistics example_runtime ''t''
        (JObj (AList.delete ''headToHeadModel'' example_statistics)) ''7'') ''recent_matches''
      = Some (JObj [])"
proof -
  let ?P = "process_event_statistics example_runtime ''t'' (JObj example_statistics) ''7''"
  have ev: "?P = JObj (AList.update ''head_to_head''
      (JObj [(''total_matches'', JInt 3), (''home_team_wins'', JNull),
             (''away_team_wins'', JNull), (''draws'', JNull), (''recent_matches'', JList [])])
      (initial_statistics ''t'' ''7''))"
    by (simp add: process_event_statistics_def statistics_steps_def section_get_def
        section_in_def dget_def example_statistics_def head_to_head_of_def py_dict_def
        rows_of_def assign_def)
  have s: "succeeded ?P"
    unfolding ev by (simp add: succeeded_def dget_def initial_statistics_def)
  have h: "result_field ?P ''head_to_head''
      = Some (JObj [(''total_matches'', JInt 3), (''home_team_wins'', JNull),
                    (''away_team_wins'', JNull), (''draws'', JNull),
                    (''recent_matches'', JList [])])"
    unfolding ev by (simp add: result_field_def initial_statistics_def)
  have none: "\<forall>k\<in>set (map fst section_keys). absent_or_empty [] k"
    by (simp add: absent_or_empty_def)
  have rm: "''recent_matches'' \<in> set [''event_info'', ''tournament_standings'', ''head_to_head'',
       ''recent_matches'', ''betting_analysis'', ''referee_info'', ''team_stats'']
     \<and> (\<forall>k\<in>set (raw_keys ''recent_matches''). absent_or_empty example_statistics k)"
    by (simp add: raw_keys_def section_keys_def absent_or_empty_def example_statistics_def)
  have le: "absent_or_empty example_statistics ''lastEventModel''"
    by (simp add: absent_or_empty_def example_statistics_def)
  have nk: "''headToHeadModel'' \<notin> set (raw_keys ''recent_matches'')"
    by (simp add: raw_keys_def section_keys_def)
  note T0 = statistics_sections_best_effort
    [of "[]" example_runtime "''t''" "''7''" "''recent_matches''" "''headToHeadModel''"]
  note T1 = statistics_sections_best_effort
    [of example_statistics example_runtime "''t''" "''7''" "''recent_matches''" "''headToHeadModel''"]
  from T0 none have a: "process_event_statistics example_runtime ''t'' (JObj []) ''7'' =
     JObj (initial_statistics ''t'' ''7'')" by blast
  from T1 s rm have b: "result_field ?P ''recent_matches'' = Some (JObj [])" by blast
  from T1 s le have c: "result_field ?P ''recent_form'' = None" by blast
  from T1 s have d: "succeeded (process_event_statistics example_runtime ''t''
        (JObj (AList.delete ''headToHeadModel'' example_statistics)) ''7'')" by blast
  from T1 s nk have "result_field (process_event_statistics example_runtime ''t''
        (JObj (AList.delete ''headToHeadModel'' example_statistics)) ''7'') ''recent_matches''
      = result_field ?P ''recent_matches''" by blast
  with b have e: "result_field (process_event_statistics example_runtime ''t''
        (JObj (AList.delete ''headToHeadModel'' example_statistics)) ''7'') ''recent_matches''
      = Some (JObj [])" by (simp only:)
  show ?thesis by (intro conjI) (fact a, fact s, fact h, fact b, fact c, fact d, fact e)
qed

section \<open>Market descriptions\<close>

lemma exact_keys_fixed:
  "map fst (market_descriptions rt sov) = map fst (market_descriptions rt' sov')"
  by (simp add: market_descriptions_def)

lemma exact_entry_fixed:
  "(map_of (market_descriptions rt sov) k = None) = (map_of (market_descriptions rt' sov') k = None)"
  using exact_keys_fixed [of rt sov rt' sov']
  by (metis map_of_eq_None_iff set_map)

lemma subtype_patterns_shadowed:
  assumes "map_of subtype_patterns k \<noteq> None"
  shows "map_of (market_descriptions rt sov) (''2.'' @ k) \<noteq> None"
proof -
  from assms have "k \<in> fst ` set subtype_patterns"
    by (simp add: map_of_eq_None_iff)
  then have "k \<in> {''85'', ''88'', ''36'', ''77'', ''91'', ''89'', ''84'', ''4'', ''821'', ''730'',
                  ''729'', ''698'', ''699'', ''6''}"
    by (simp add: subtype_patterns_def)
  then have "''2.'' @ k \<in> fst ` set (market_descriptions rt sov)"
    by (auto simp: market_descriptions_def)
  then show ?thesis by (simp add: map_of_eq_None_iff)
qed

lemma py_key_in_subtype:
  assumes "map_of (market_descriptions rt sov) (market_key rt (JStr ''2'') st) = None"
  shows "py_key_in st subtype_patterns = (if is_hashable st then Inr False else Inl TypeError)"
proof (cases st)
  case (JStr k)
  with assms have "map_of (market_descriptions rt sov) (''2.'' @ k) = None"
    by (simp add: market_key_def)
  with subtype_patterns_shadowed [of k rt sov] have "map_of subtype_patterns k = None" by blast
  with JStr show ?thesis by simp
qed simp_all


lemma main_type_fallback_2:
  "py_str rt t = ''2'' \<Longrightarrow>
   main_type_fallback rt t st sov =
     (if py_truthy sov then ''Goals and Statistics ('' @ py_str rt sov @ '')''
      else ''Goals and Statistics.'' @ py_str rt st)"
  by (simp add: main_type_fallback_def main_type_descriptions_def)

lemma integer_type2_fallback:
  assumes "map_of (market_descriptions rt sov) (market_key rt (JInt 2) st) = None"
  shows "get_market_description rt (JInt 2) st sov =
           Inr (if py_truthy sov then ''Goals and Statistics ('' @ py_str rt sov @ '')''
                else ''Goals and Statistics.'' @ py_str rt st)"
  using assms
  by (simp add: get_market_description_def main_type_fallback_2 show_int_literals)



text \<open>
  The secondary table is never reached: no sub-type code is in it while its pair with type
  \<^verbatim>\<open>"2"\<close> lacks an exact-match entry (sub-type 88 resolves to the exact-match text, not
  to the secondary table's), and the integer type code 2 does not enter the type-2 tier.
\<close>

lemma secondary_table_never_reached:
  "\<not> (\<exists>st. py_key_in st subtype_patterns = Inr True
           \<and> map_of (market_descriptions example_runtime (JStr []))
                (market_key example_runtime (JStr ''2'') st) = None)
   \<and> map_of subtype_patterns ''88'' = Some ''1X2 Alternative''
   \<and> get_market_description example_runtime (JStr ''2'') (JStr ''88'') (JStr []) =
       Inr ''1X2 - Match Result (Alternative)''
   \<and> get_market_description example_runtime (JInt 2) (JInt 999) (JStr ''1.5'') =
       Inr ''Goals and Statistics (1.5)''"
proof (intro conjI)
  show "\<not> (\<exists>st. py_key_in st subtype_patterns = Inr True
           \<and> map_of (market_descriptions example_runtime (JStr []))
                (market_key example_runtime (JStr ''2'') st) = None)"
  proof
    assume "\<exists>st. py_key_in st subtype_patterns = Inr True
           \<and> map_of (market_descriptions example_runtime (JStr []))
                (market_key example_runtime (JStr ''2'') st) = None"
    then obtain st where "py_key_in st subtype_patterns = Inr True"
      and "map_of (market_descriptions example_runtime (JStr []))
                (market_key example_runtime (JStr ''2'') st) = None" by blast
    with py_key_in_subtype [of example_runtime "JStr []" st] show False
      by (simp split: if_splits)
  qed
  show "map_of subtype_patterns ''88'' = Some ''1X2 Alternative''"
    by (simp add: subtype_patterns_def)
  show "get_market_description example_runtime (JStr ''2'') (JStr ''88'') (JStr []) =
       Inr ''1X2 - Match Result (Alternative)''"
    by (simp add: get_market_description_def market_key_def market_descriptions_def)
  have "map_of (market_descriptions example_runtime (JStr ''1.5''))
          (market_key example_runtime (JInt 2) (JInt 999)) = None"
    by (simp add: market_key_def market_descriptions_def show_int_def show_nat.simps)
  from integer_type2_fallback [OF this]
  show "get_market_description example_runtime (JInt 2) (JInt 999) (JStr ''1.5'') =
       Inr ''Goals and Statistics (1.5)''"
    by simp
qed


end
